theory Spec2Isabelle
  imports Complex_Main "HOL-Library.Word" "HOL-Library.Sublist"
begin

section \<open>JavaScript values the cookie code handles\<close>

text \<open>
  A JavaScript string is a sequence of 16-bit code units. String literals of the source
  are written \<open>js ''...''\<close>, single characters \<open>ch CHR ''...''\<close>.
\<close>

type_synonym jsstring = "16 word list"

definition ch :: "char \<Rightarrow> 16 word" where
  "ch c = of_char c"

definition js :: "string \<Rightarrow> jsstring" where
  "js s = map ch s"

text \<open>
  Exceptions are values: \<open>URIError\<close> is thrown by \<open>encodeURIComponent\<close> and
  \<open>decodeURIComponent\<close>, \<open>ReferenceError\<close> by reading the global \<open>document\<close>
  where none is declared.
\<close>

datatype error = URIError | ReferenceError

text \<open>
  Numbers. A number that comes from the clock is an integer (\<open>int\<close>); a number read
  from a cookie by \<open>Number(v)\<close> is whatever the text denotes (\<open>jsnum\<close>). Numerals
  denote their exact mathematical value: the rounding of IEEE doubles is not part of the
  embedding (every time value, at most 8.64e15 in magnitude, is exact in a double).
\<close>

datatype jsnum = Fin rat | PosInf | NegInf | NaN

datatype jsval = JUndefined | JNull | JBool bool | JNum int | JStr jsstring

subsection \<open>String.prototype.split, trim, startsWith\<close>

text \<open>\<open>s.split(c)\<close> for a separator of one code unit; \<open>''.split(c)\<close> is \<open>['']\<close>.\<close>

fun split_on :: "'a \<Rightarrow> 'a list \<Rightarrow> 'a list list" where
  "split_on c [] = [[]]"
| "split_on c (x # xs) =
     (if x = c then [] # split_on c xs
      else (case split_on c xs of [] \<Rightarrow> [[x]] | p # ps \<Rightarrow> (x # p) # ps))"

text \<open>The code units \<open>trim\<close> strips, and \<open>Number\<close> skips: WhiteSpace and LineTerminator.\<close>

definition is_space :: "16 word \<Rightarrow> bool" where
  "is_space c \<longleftrightarrow>
     c \<in> {0x09, 0x0A, 0x0B, 0x0C, 0x0D, 0x20, 0xA0, 0x1680, 0x2028, 0x2029,
          0x202F, 0x205F, 0x3000, 0xFEFF}
     \<or> (0x2000 \<le> c \<and> c \<le> 0x200A)"

definition trim :: "jsstring \<Rightarrow> jsstring" where
  "trim s = rev (dropWhile is_space (rev (dropWhile is_space s)))"

definition startsWith :: "jsstring \<Rightarrow> jsstring \<Rightarrow> bool" where
  "startsWith p t \<longleftrightarrow> take (length t) p = t"

subsection \<open>encodeURIComponent and decodeURIComponent\<close>

definition is_alnum :: "16 word \<Rightarrow> bool" where
  "is_alnum c \<longleftrightarrow>
     (0x30 \<le> c \<and> c \<le> 0x39) \<or> (0x41 \<le> c \<and> c \<le> 0x5A) \<or> (0x61 \<le> c \<and> c \<le> 0x7A)"

text \<open>The characters \<open>encodeURIComponent\<close> leaves alone: letters, digits and \<open>-_.!~*'()\<close>.\<close>

definition uri_unreserved :: "16 word \<Rightarrow> bool" where
  "uri_unreserved c \<longleftrightarrow>
     is_alnum c \<or> c \<in> {0x2D, 0x5F, 0x2E, 0x21, 0x7E, 0x2A, 0x27, 0x28, 0x29}"

definition hex_digit :: "nat \<Rightarrow> 16 word" where
  "hex_digit d = (if d < 10 then of_nat (48 + d) else of_nat (55 + d))"

definition pct :: "nat \<Rightarrow> jsstring" where
  "pct b = [0x25, hex_digit (b div 16), hex_digit (b mod 16)]"

text \<open>The UTF-8 octets of a code point.\<close>

definition utf8_octets :: "nat \<Rightarrow> nat list" where
  "utf8_octets cp =
     (if cp < 0x80 then [cp]
      else if cp < 0x800 then [0xC0 + cp div 0x40, 0x80 + cp mod 0x40]
      else if cp < 0x10000 then
        [0xE0 + cp div 0x1000, 0x80 + (cp div 0x40) mod 0x40, 0x80 + cp mod 0x40]
      else
        [0xF0 + cp div 0x40000, 0x80 + (cp div 0x1000) mod 0x40,
         0x80 + (cp div 0x40) mod 0x40, 0x80 + cp mod 0x40])"

definition is_high_surrogate :: "16 word \<Rightarrow> bool" where
  "is_high_surrogate c \<longleftrightarrow> 0xD800 \<le> c \<and> c \<le> 0xDBFF"

definition is_low_surrogate :: "16 word \<Rightarrow> bool" where
  "is_low_surrogate c \<longleftrightarrow> 0xDC00 \<le> c \<and> c \<le> 0xDFFF"

definition pct_encode :: "nat \<Rightarrow> jsstring" where
  "pct_encode cp = concat (map pct (utf8_octets cp))"

definition emit :: "jsstring \<Rightarrow> error + jsstring \<Rightarrow> error + jsstring" where
  "emit s r = (case r of Inl e \<Rightarrow> Inl e | Inr t \<Rightarrow> Inr (s @ t))"

text \<open>
  \<open>encodeURIComponent\<close>: unreserved code units stay, every other code point becomes the
  percent-escapes of its UTF-8 octets; an unpaired surrogate throws \<open>URIError\<close>.
\<close>

fun encodeURIComponent :: "jsstring \<Rightarrow> error + jsstring" where
  "encodeURIComponent [] = Inr []"
| "encodeURIComponent [c] =
     (if uri_unreserved c then Inr [c]
      else if is_low_surrogate c \<or> is_high_surrogate c then Inl URIError
      else Inr (pct_encode (unat c)))"
| "encodeURIComponent (c # d # cs) =
     (if uri_unreserved c then emit [c] (encodeURIComponent (d # cs))
      else if is_low_surrogate c then Inl URIError
      else if is_high_surrogate c then
        (if is_low_surrogate d then
           emit (pct_encode (0x10000 + (unat c - 0xD800) * 0x400 + (unat d - 0xDC00)))
             (encodeURIComponent cs)
         else Inl URIError)
      else emit (pct_encode (unat c)) (encodeURIComponent (d # cs)))"

definition hexval :: "16 word \<Rightarrow> nat option" where
  "hexval c =
     (if 0x30 \<le> c \<and> c \<le> 0x39 then Some (unat c - 0x30)
      else if 0x41 \<le> c \<and> c \<le> 0x46 then Some (unat c - 0x41 + 10)
      else if 0x61 \<le> c \<and> c \<le> 0x66 then Some (unat c - 0x61 + 10)
      else None)"

text \<open>One escape \<open>%XX\<close> at the head of the text: its octet and the rest.\<close>

fun pct_octet :: "jsstring \<Rightarrow> (nat \<times> jsstring) option" where
  "pct_octet (p # h # l # rest) =
     (if p = 0x25 then
        (case (hexval h, hexval l) of
           (Some a, Some b) \<Rightarrow> Some (16 * a + b, rest)
         | _ \<Rightarrow> None)
      else None)"
| "pct_octet _ = None"

text \<open>The \<open>n\<close> escapes that must follow the first octet of a multi-octet sequence.\<close>

fun pct_octets :: "nat \<Rightarrow> jsstring \<Rightarrow> (nat list \<times> jsstring) option" where
  "pct_octets 0 s = Some ([], s)"
| "pct_octets (Suc n) s =
     (case pct_octet s of
        None \<Rightarrow> None
      | Some (b, rest) \<Rightarrow>
          (case pct_octets n rest of
             None \<Rightarrow> None
           | Some (bs, rest') \<Rightarrow> Some (b # bs, rest')))"

text \<open>The number of leading 1 bits of an octet, 5 standing for "more than four".\<close>

definition leading_ones :: "nat \<Rightarrow> nat" where
  "leading_ones b =
     (if b < 0x80 then 0 else if b < 0xC0 then 1 else if b < 0xE0 then 2
      else if b < 0xF0 then 3 else if b < 0xF8 then 4 else 5)"

definition is_cont :: "nat \<Rightarrow> bool" where
  "is_cont b \<longleftrightarrow> 0x80 \<le> b \<and> b < 0xC0"

text \<open>
  The code point a sequence of two to four octets encodes, when it is well-formed UTF-8:
  continuation octets, no overlong form, no surrogate, at most U+10FFFF.
\<close>

fun utf8_decode :: "nat list \<Rightarrow> nat option" where
  "utf8_decode [a, b] =
     (let cp = (a - 0xC0) * 0x40 + (b - 0x80)
      in if is_cont b \<and> 0x80 \<le> cp then Some cp else None)"
| "utf8_decode [a, b, c] =
     (let cp = (a - 0xE0) * 0x1000 + (b - 0x80) * 0x40 + (c - 0x80)
      in if is_cont b \<and> is_cont c \<and> 0x800 \<le> cp \<and> \<not> (0xD800 \<le> cp \<and> cp \<le> 0xDFFF)
         then Some cp else None)"
| "utf8_decode [a, b, c, d] =
     (let cp = (a - 0xF0) * 0x40000 + (b - 0x80) * 0x1000 + (c - 0x80) * 0x40 + (d - 0x80)
      in if is_cont b \<and> is_cont c \<and> is_cont d \<and> 0x10000 \<le> cp \<and> cp \<le> 0x10FFFF
         then Some cp else None)"
| "utf8_decode _ = None"

definition utf16_units :: "nat \<Rightarrow> jsstring" where
  "utf16_units cp =
     (if cp < 0x10000 then [of_nat cp]
      else [of_nat (0xD800 + (cp - 0x10000) div 0x400),
            of_nat (0xDC00 + (cp - 0x10000) mod 0x400)])"

lemma pct_octet_shorter: "pct_octet s = Some (b, rest) \<Longrightarrow> length rest < length s"
  by (induction s rule: pct_octet.induct) (auto split: if_splits option.splits)

lemma pct_octets_shorter: "pct_octets n s = Some (bs, rest) \<Longrightarrow> length rest \<le> length s"
proof (induction n arbitrary: s bs rest)
  case 0
  then show ?case by simp
next
  case (Suc n)
  then show ?case
    by (fastforce split: option.splits dest: pct_octet_shorter)
qed

text \<open>
  \<open>decodeURIComponent\<close>: a code unit other than \<open>%\<close> stays; \<open>%XX\<close> below 0x80 is that
  character; a first octet announcing \<open>n\<close> octets must be followed by \<open>n - 1\<close> further
  escapes that together are well-formed UTF-8. Anything else throws \<open>URIError\<close>.
\<close>

function decodeURIComponent :: "jsstring \<Rightarrow> error + jsstring" where
  "decodeURIComponent [] = Inr []"
| "decodeURIComponent (c # cs) =
     (if c \<noteq> 0x25 then emit [c] (decodeURIComponent cs)
      else
        (case pct_octet (c # cs) of
           None \<Rightarrow> Inl URIError
         | Some (b, rest) \<Rightarrow>
             (let n = leading_ones b in
              if n = 0 then emit [of_nat b] (decodeURIComponent rest)
              else if n = 1 \<or> 4 < n then Inl URIError
              else
                (case pct_octets (n - 1) rest of
                   None \<Rightarrow> Inl URIError
                 | Some (bs, rest') \<Rightarrow>
                     (case utf8_decode (b # bs) of
                        None \<Rightarrow> Inl URIError
                      | Some cp \<Rightarrow> emit (utf16_units cp) (decodeURIComponent rest'))))))"
  by pat_completeness auto
termination
proof (relation "measure length")
  show "wf (measure length)" by simp
next
  fix c :: "16 word" and cs
  show "(cs, c # cs) \<in> measure length" by simp
next
  fix c :: "16 word" and cs x2 b rest
  assume "pct_octet (c # cs) = Some x2" "(b, rest) = x2"
  then have "length rest < length (c # cs)"
    using pct_octet_shorter [of "c # cs" b rest] by simp
  then show "(rest, c # cs) \<in> measure length" by simp
next
  fix c :: "16 word" and cs x2 b rest n x2a bs rest'
  assume "pct_octet (c # cs) = Some x2" "(b, rest) = x2"
    "pct_octets (n - 1) rest = Some x2a" "(bs, rest') = x2a"
  then have "length rest < length (c # cs)" "length rest' \<le> length rest"
    using pct_octet_shorter [of "c # cs" b rest] pct_octets_shorter [of "n - 1" rest bs rest']
    by simp_all
  then show "(rest', c # cs) \<in> measure length" by simp
qed

subsection \<open>Numbers and their text\<close>

text \<open>
  The decimal digits of a natural number, as \<open>Number.prototype.toString\<close> writes an
  integer below 1e21 in magnitude.
\<close>

function show_nat :: "nat \<Rightarrow> jsstring" where
  "show_nat n =
     (if n < 10 then [of_nat (48 + n)]
      else show_nat (n div 10) @ [of_nat (48 + n mod 10)])"
  by pat_completeness auto
termination
  by (relation "measure id") auto

declare show_nat.simps [simp del]

definition Number_toString :: "int \<Rightarrow> jsstring" where
  "Number_toString n = (if n < 0 then ch CHR ''-'' # show_nat (nat (- n)) else show_nat (nat n))"

text \<open>\<open>String(value)\<close>.\<close>

fun String_of :: "jsval \<Rightarrow> jsstring" where
  "String_of JUndefined = js ''undefined''"
| "String_of JNull = js ''null''"
| "String_of (JBool b) = (if b then js ''true'' else js ''false'')"
| "String_of (JNum n) = Number_toString n"
| "String_of (JStr s) = s"

definition is_digit :: "16 word \<Rightarrow> bool" where
  "is_digit c \<longleftrightarrow> 0x30 \<le> c \<and> c \<le> 0x39"

definition digit_val :: "16 word \<Rightarrow> nat" where
  "digit_val c = unat c - 0x30"

definition digits_val :: "jsstring \<Rightarrow> nat" where
  "digits_val ds = foldl (\<lambda>a c. 10 * a + digit_val c) 0 ds"

definition exp10 :: "int \<Rightarrow> rat" where
  "exp10 e = (if 0 \<le> e then 10 ^ nat e else 1 / 10 ^ nat (- e))"

text \<open>An ExponentPart, or nothing: the exponent it gives. \<open>None\<close> when the text is neither.\<close>

definition ExponentPart :: "jsstring \<Rightarrow> int option" where
  "ExponentPart r =
     (case r of
        [] \<Rightarrow> Some 0
      | c # t \<Rightarrow>
          if c = ch CHR ''e'' \<or> c = ch CHR ''E'' then
            (let neg = (t \<noteq> [] \<and> hd t = ch CHR ''-'');
                 ds = (if t \<noteq> [] \<and> (hd t = ch CHR ''-'' \<or> hd t = ch CHR ''+'') then tl t else t)
             in if ds \<noteq> [] \<and> list_all is_digit ds
                then Some (if neg then - int (digits_val ds) else int (digits_val ds))
                else None)
          else None)"

text \<open>
  StrUnsignedDecimalLiteral: \<open>Infinity\<close>, or digits with an optional fraction and exponent
  (\<open>12\<close>, \<open>12.\<close>, \<open>12.5e3\<close>, \<open>.5\<close>); \<open>NaN\<close> when the text is none of these.
\<close>

definition StrUnsignedDecimalLiteral :: "jsstring \<Rightarrow> jsnum" where
  "StrUnsignedDecimalLiteral s =
     (if s = js ''Infinity'' then PosInf
      else
        (let ip = takeWhile is_digit s;
             r1 = dropWhile is_digit s;
             dot = (r1 \<noteq> [] \<and> hd r1 = ch CHR ''.'');
             fp = (if dot then takeWhile is_digit (tl r1) else []);
             r2 = (if dot then dropWhile is_digit (tl r1) else r1)
         in if ip = [] \<and> fp = [] then NaN
            else
              (case ExponentPart r2 of
                 None \<Rightarrow> NaN
               | Some e \<Rightarrow> Fin (of_nat (digits_val (ip @ fp)) * exp10 (e - int (length fp))))))"

definition radix_val :: "nat \<Rightarrow> jsstring \<Rightarrow> nat option" where
  "radix_val r ds =
     (if ds \<noteq> [] \<and> list_all (\<lambda>c. case hexval c of None \<Rightarrow> False | Some d \<Rightarrow> d < r) ds
      then Some (foldl (\<lambda>a c. r * a + the (hexval c)) 0 ds)
      else None)"

definition negate :: "jsnum \<Rightarrow> jsnum" where
  "negate x = (case x of Fin q \<Rightarrow> Fin (- q) | PosInf \<Rightarrow> NegInf | NegInf \<Rightarrow> PosInf | NaN \<Rightarrow> NaN)"

text \<open>
  \<open>Number(s)\<close> on a string (StringToNumber): white space around the literal is skipped,
  the empty text is 0, \<open>0x\<close>, \<open>0o\<close> and \<open>0b\<close> introduce unsigned integers, a decimal
  literal may carry a sign, every other text is \<open>NaN\<close>.
\<close>

definition StringToNumber :: "jsstring \<Rightarrow> jsnum" where
  "StringToNumber s =
     (let t = trim s in
      if t = [] then Fin 0
      else if startsWith t (js ''0x'') \<or> startsWith t (js ''0X'') then
        (case radix_val 16 (drop 2 t) of None \<Rightarrow> NaN | Some n \<Rightarrow> Fin (of_nat n))
      else if startsWith t (js ''0o'') \<or> startsWith t (js ''0O'') then
        (case radix_val 8 (drop 2 t) of None \<Rightarrow> NaN | Some n \<Rightarrow> Fin (of_nat n))
      else if startsWith t (js ''0b'') \<or> startsWith t (js ''0B'') then
        (case radix_val 2 (drop 2 t) of None \<Rightarrow> NaN | Some n \<Rightarrow> Fin (of_nat n))
      else if hd t = ch CHR ''+'' then StrUnsignedDecimalLiteral (tl t)
      else if hd t = ch CHR ''-'' then negate (StrUnsignedDecimalLiteral (tl t))
      else StrUnsignedDecimalLiteral t)"

text \<open>\<open>Number(v)\<close> where \<open>v\<close> is a string or \<open>undefined\<close> (\<open>None\<close>).\<close>

definition Number_of :: "jsstring option \<Rightarrow> jsnum" where
  "Number_of v = (case v of None \<Rightarrow> NaN | Some s \<Rightarrow> StringToNumber s)"

text \<open>\<open>x || 0\<close> on a number: 0 and \<open>NaN\<close> are falsy.\<close>

definition or_zero :: "jsnum \<Rightarrow> jsnum" where
  "or_zero x = (if x = Fin 0 \<or> x = NaN then Fin 0 else x)"

section \<open>The consent codec\<close>

text \<open>
  The consent record \<open>{analytics, experiments, marketing, ts}\<close>. The timestamp's type is a
  parameter: \<open>int\<close> for a record stamped from the clock, \<open>jsnum\<close> for a decoded one.
\<close>

record 'n ConsentRecord =
  analytics :: bool
  experiments :: bool
  marketing :: bool
  ts :: 'n

definition DEFAULT_CONSENT :: "jsnum ConsentRecord" where
  "DEFAULT_CONSENT = \<lparr>analytics = False, experiments = False, marketing = False, ts = Fin 0\<rparr>"

definition bit01 :: "bool \<Rightarrow> jsstring" where
  "bit01 b = (if b then js ''1'' else js ''0'')"

text \<open>
  \<open>encodeConsent(obj)\<close>; \<open>now\<close> is what \<open>Date.now()\<close> returns. \<open>obj.ts || Date.now()\<close>
  takes the clock when \<open>obj.ts\<close> is 0.
\<close>

definition encodeConsent :: "int \<Rightarrow> int ConsentRecord \<Rightarrow> jsstring" where
  "encodeConsent now obj =
     (let a = bit01 (analytics obj);
          e = bit01 (experiments obj);
          m = bit01 (marketing obj);
          t = (if ts obj \<noteq> 0 then ts obj else now)
      in js ''a='' @ a @ js ''|e='' @ e @ js ''|m='' @ m @ js ''|ts='' @ Number_toString t)"

text \<open>
  One turn of the loop of \<open>decodeConsent\<close>: \<open>[k, v] = pair.split('=')\<close>, where \<open>v\<close> is
  \<open>undefined\<close> when the pair has no \<open>=\<close>.
\<close>

definition decode_pair :: "jsnum ConsentRecord \<Rightarrow> jsstring \<Rightarrow> jsnum ConsentRecord" where
  "decode_pair out pair =
     (let kv = split_on (ch CHR ''='') pair;
          k = hd kv;
          v = (case tl kv of [] \<Rightarrow> None | x # _ \<Rightarrow> Some x)
      in if k = [] then out
         else if k = js ''a'' then out\<lparr>analytics := (v = Some (js ''1''))\<rparr>
         else if k = js ''e'' then out\<lparr>experiments := (v = Some (js ''1''))\<rparr>
         else if k = js ''m'' then out\<lparr>marketing := (v = Some (js ''1''))\<rparr>
         else if k = js ''ts'' then out\<lparr>ts := or_zero (Number_of v)\<rparr>
         else out)"

fun decode_loop :: "jsnum ConsentRecord \<Rightarrow> jsstring list \<Rightarrow> jsnum ConsentRecord" where
  "decode_loop out [] = out"
| "decode_loop out (pair # pairs) = decode_loop (decode_pair out pair) pairs"

text \<open>\<open>decodeConsent(str)\<close>: \<open>!str || typeof str !== 'string'\<close> gives the defaults.\<close>

definition decodeConsent :: "jsval \<Rightarrow> jsnum ConsentRecord" where
  "decodeConsent str =
     (case str of
        JStr s \<Rightarrow>
          if s = [] then DEFAULT_CONSENT
          else decode_loop DEFAULT_CONSENT (split_on (ch CHR ''|'') s)
      | _ \<Rightarrow> DEFAULT_CONSENT)"

text \<open>The record an \<open>int\<close>-stamped record is once its timestamp is read as a number.\<close>

definition as_decoded :: "int ConsentRecord \<Rightarrow> jsnum ConsentRecord" where
  "as_decoded r =
     \<lparr>analytics = analytics r, experiments = experiments r, marketing = marketing r,
      ts = Fin (of_int (ts r))\<rparr>"

section \<open>Dates\<close>

text \<open>
  A \<open>Date\<close> object: a time value in milliseconds since the epoch, or an invalid date.
  \<open>setTime\<close> clips: a time beyond 8.64e15 ms makes the date invalid.
\<close>

datatype jsdate = Date int | InvalidDate

definition Date_setTime :: "int \<Rightarrow> jsdate" where
  "Date_setTime t = (if \<bar>t\<bar> \<le> 8640000000000000 then Date t else InvalidDate)"

text \<open>
  Year, month (1 to 12) and day of the month of a day number counted from 1 January 1970:
  the era of 400 years, the day of the era, the year of the era, the day of the year
  counted from 1 March, and the month counted from March.
\<close>

definition civil_of_mp :: "int \<Rightarrow> int \<Rightarrow> int \<Rightarrow> int \<times> int \<times> int" where
  "civil_of_mp y doy mp =
     (if mp < 10 then (y, mp + 3, doy - (153 * mp + 2) div 5 + 1)
      else (y + 1, mp - 9, doy - (153 * mp + 2) div 5 + 1))"

definition civil_of_doy :: "int \<Rightarrow> int \<Rightarrow> int \<times> int \<times> int" where
  "civil_of_doy y doy = civil_of_mp y doy ((5 * doy + 2) div 153)"

definition civil_of_yoe :: "int \<Rightarrow> int \<Rightarrow> int \<Rightarrow> int \<times> int \<times> int" where
  "civil_of_yoe era doe yoe =
     civil_of_doy (yoe + era * 400) (doe - (365 * yoe + yoe div 4 - yoe div 100))"

definition civil_of_doe :: "int \<Rightarrow> int \<Rightarrow> int \<times> int \<times> int" where
  "civil_of_doe era doe =
     civil_of_yoe era doe ((doe - doe div 1460 + doe div 36524 - doe div 146096) div 365)"

definition civil_of_era :: "int \<Rightarrow> int \<Rightarrow> int \<times> int \<times> int" where
  "civil_of_era z era = civil_of_doe era (z - era * 146097)"

definition civil_from_days :: "int \<Rightarrow> int \<times> int \<times> int" where
  "civil_from_days days = civil_of_era (days + 719468) ((days + 719468) div 146097)"

definition pad2 :: "int \<Rightarrow> jsstring" where
  "pad2 n = (if n < 10 then ch CHR ''0'' # show_nat (nat n) else show_nat (nat n))"

definition pad_year :: "int \<Rightarrow> jsstring" where
  "pad_year y =
     (let ds = show_nat (nat \<bar>y\<bar>)
      in (if y < 0 then js ''-'' else []) @ replicate (4 - length ds) (ch CHR ''0'') @ ds)"

definition day_name :: "int \<Rightarrow> jsstring" where
  "day_name w =
     [js ''Sun'', js ''Mon'', js ''Tue'', js ''Wed'', js ''Thu'', js ''Fri'', js ''Sat''] ! nat w"

definition month_name :: "int \<Rightarrow> jsstring" where
  "month_name m =
     [js ''Jan'', js ''Feb'', js ''Mar'', js ''Apr'', js ''May'', js ''Jun'', js ''Jul'',
      js ''Aug'', js ''Sep'', js ''Oct'', js ''Nov'', js ''Dec''] ! nat (m - 1)"

text \<open>\<open>Date.prototype.toUTCString\<close>: \<open>Tue, 14 Nov 2023 22:13:20 GMT\<close>.\<close>

definition utc_fields :: "int \<times> int \<times> int \<Rightarrow> int \<Rightarrow> int \<Rightarrow> jsstring" where
  "utc_fields ymd w ms =
     day_name w @ js '', '' @ pad2 (snd (snd ymd)) @ js '' '' @ month_name (fst (snd ymd))
     @ js '' '' @ pad_year (fst ymd) @ js '' '' @ pad2 (ms div 3600000) @ js '':''
     @ pad2 ((ms div 60000) mod 60) @ js '':'' @ pad2 ((ms div 1000) mod 60) @ js '' GMT''"

definition utc_string :: "int \<Rightarrow> int \<Rightarrow> jsstring" where
  "utc_string days ms = utc_fields (civil_from_days days) ((days + 4) mod 7) ms"

fun toUTCString :: "jsdate \<Rightarrow> jsstring" where
  "toUTCString InvalidDate = js ''Invalid Date''"
| "toUTCString (Date t) = utc_string (t div 86400000) (t mod 86400000)"

section \<open>The browser: document.cookie and the clock\<close>

text \<open>
  The cookie functions touch their environment in three ways: they read \<open>document.cookie\<close>,
  they assign to it, and they read the clock. The environment is a record of the cookies
  the document sees (name and value as stored, in the order the browser lists them;
  \<open>None\<close> where no \<open>document\<close> is declared), the clock (\<open>Date.now()\<close> and \<open>new Date()\<close>,
  constant during one call) and a trace of the accesses made so far.
\<close>

type_synonym jar = "(jsstring \<times> jsstring) list"

datatype event =
    CookieRead jsstring  \<comment> \<open>\<open>document.cookie\<close> was read to look this name up\<close>
  | CookieWrite jsstring  \<comment> \<open>this text was assigned to \<open>document.cookie\<close>\<close>

record env =
  cookies :: "jar option"
  clock :: int
  trace :: "event list"

fun join_with :: "'a list \<Rightarrow> 'a list list \<Rightarrow> 'a list" where
  "join_with sep [] = []"
| "join_with sep [x] = x"
| "join_with sep (x # y # ys) = x @ sep @ join_with sep (y # ys)"

text \<open>
  What reading \<open>document.cookie\<close> returns: \<open>name=value\<close> pairs joined by \<open>; \<close>, a cookie
  without a name being listed by its value alone.
\<close>

definition render_pair :: "jsstring \<times> jsstring \<Rightarrow> jsstring" where
  "render_pair p = (if fst p = [] then snd p else fst p @ js ''='' @ snd p)"

definition cookie_text :: "jar \<Rightarrow> jsstring" where
  "cookie_text jar = join_with (js ''; '') (map render_pair jar)"

text \<open>
  What assigning a cookie text does to the jar. The browser takes the name and the value
  from the text before the first \<open>;\<close>, split at the first \<open>=\<close> (without a \<open>=\<close> the text is
  the value of a cookie without a name). \<open>expiry\<close> is the instant
  the text's \<open>Expires\<close> attribute spells (\<open>None\<close> when it has none, or not a date): a cookie
  that is already expired removes the stored one of its name, any other replaces it or is
  added at the end. All cookies are taken to be at the document's path and origin, and the
  browser to accept them.
\<close>

definition name_value :: "jsstring \<Rightarrow> jsstring \<times> jsstring" where
  "name_value nv =
     (if ch CHR ''='' \<in> set nv
      then (takeWhile (\<lambda>c. c \<noteq> ch CHR ''='') nv, drop 1 (dropWhile (\<lambda>c. c \<noteq> ch CHR ''='') nv))
      else ([], nv))"

definition cookie_pair :: "jsstring \<Rightarrow> jsstring \<times> jsstring" where
  "cookie_pair text = name_value (takeWhile (\<lambda>c. c \<noteq> ch CHR '';'') text)"

definition store_cookie :: "jsstring \<Rightarrow> int option \<Rightarrow> int \<Rightarrow> jar \<Rightarrow> jar" where
  "store_cookie text expiry now jar =
     (let n = fst (cookie_pair text); v = snd (cookie_pair text)
      in if (case expiry of None \<Rightarrow> False | Some t \<Rightarrow> t \<le> now)
         then filter (\<lambda>p. fst p \<noteq> n) jar
         else if n \<in> fst ` set jar
         then map (\<lambda>p. if fst p = n then (n, v) else p) jar
         else jar @ [(n, v)])"

text \<open>The instant an \<open>Expires\<close> attribute written with \<open>toUTCString\<close> spells: whole seconds.\<close>

fun expires_instant :: "jsdate option \<Rightarrow> int option" where
  "expires_instant None = None"
| "expires_instant (Some InvalidDate) = None"
| "expires_instant (Some (Date t)) = Some (t div 1000 * 1000)"

text \<open>\<open>document.cookie = text\<close>; without a \<open>document\<close> the reference throws.\<close>

definition document_cookie_assign :: "jsstring \<Rightarrow> int option \<Rightarrow> env \<Rightarrow> error + env" where
  "document_cookie_assign text expiry env =
     (case cookies env of
        None \<Rightarrow> Inl ReferenceError
      | Some jar \<Rightarrow>
          Inr (env\<lparr>cookies := Some (store_cookie text expiry (clock env) jar),
                   trace := trace env @ [CookieWrite text]\<rparr>))"

section \<open>The cookie helpers and the consent store\<close>

definition CONSENT_COOKIE :: jsstring where
  "CONSENT_COOKIE = js ''t_consent''"

definition AB_COOKIE :: jsstring where
  "AB_COOKIE = js ''t_ab''"

text \<open>
  The \<open>options\<close> argument of \<open>setCookie\<close>, a field being \<open>None\<close> when the caller's object
  does not have it (it then takes the default of \<open>opts\<close>).
\<close>

record cookie_options =
  opt_path :: "jsstring option"
  opt_expires :: "jsdate option"
  opt_expiresDays :: "int option"
  opt_sameSite :: "jsstring option"
  opt_secure :: "bool option"

definition no_options :: cookie_options where
  "no_options =
     \<lparr>opt_path = None, opt_expires = None, opt_expiresDays = None, opt_sameSite = None,
      opt_secure = None\<rparr>"

text \<open>
  \<open>setCookie(name, value, options)\<close>. The name and the value are encoded first (either may
  throw), the attributes are appended, and the text is assigned to \<open>document.cookie\<close>.
\<close>

definition setCookie :: "jsstring \<Rightarrow> jsval \<Rightarrow> cookie_options \<Rightarrow> env \<Rightarrow> error + env" where
  "setCookie name value options env =
     (let path = (case opt_path options of None \<Rightarrow> js ''/'' | Some p \<Rightarrow> p);
          sameSite = (case opt_sameSite options of None \<Rightarrow> js ''Lax'' | Some x \<Rightarrow> x);
          secure = (case opt_secure options of None \<Rightarrow> True | Some b \<Rightarrow> b)
      in case encodeURIComponent name of
           Inl e \<Rightarrow> Inl e
         | Inr n \<Rightarrow>
             (case encodeURIComponent (String_of value) of
                Inl e \<Rightarrow> Inl e
              | Inr v \<Rightarrow>
                  (let expires =
                         (case opt_expires options of
                            Some d \<Rightarrow> Some d
                          | None \<Rightarrow>
                              (case opt_expiresDays options of
                                 Some days \<Rightarrow> Some (Date_setTime (clock env + days * 86400000))
                               | None \<Rightarrow> None));
                       cookie =
                         n @ js ''='' @ v
                         @ (case expires of
                              Some d \<Rightarrow> js ''; Expires='' @ toUTCString d
                            | None \<Rightarrow> [])
                         @ (if path \<noteq> [] then js ''; Path='' @ path else [])
                         @ (if sameSite \<noteq> [] then js ''; SameSite='' @ sameSite else [])
                         @ (if secure then js ''; Secure'' else [])
                   in document_cookie_assign cookie (expires_instant expires) env)))"

text \<open>The loop of \<open>getCookie\<close> over the \<open>;\<close>-separated parts: the first match returns.\<close>

fun find_cookie :: "jsstring \<Rightarrow> jsstring list \<Rightarrow> error + jsval" where
  "find_cookie target [] = Inr JNull"
| "find_cookie target (part # parts) =
     (let p = trim part
      in if startsWith p target then
           (case decodeURIComponent (drop (length target) p) of
              Inl e \<Rightarrow> Inl e
            | Inr s \<Rightarrow> Inr (JStr s))
         else find_cookie target parts)"

definition getCookie :: "jsstring \<Rightarrow> env \<Rightarrow> error + (jsval \<times> env)" where
  "getCookie name env =
     (case encodeURIComponent name of
        Inl e \<Rightarrow> Inl e
      | Inr n \<Rightarrow>
          (case cookies env of
             None \<Rightarrow> Inl ReferenceError
           | Some jar \<Rightarrow>
               (case find_cookie (n @ js ''='') (split_on (ch CHR '';'') (cookie_text jar)) of
                  Inl e \<Rightarrow> Inl e
                | Inr v \<Rightarrow> Inr (v, env\<lparr>trace := trace env @ [CookieRead name]\<rparr>))))"

definition getConsent :: "env \<Rightarrow> error + (jsnum ConsentRecord \<times> env)" where
  "getConsent env =
     (case getCookie CONSENT_COOKIE env of
        Inl e \<Rightarrow> Inl e
      | Inr (str, env') \<Rightarrow> Inr (decodeConsent str, env'))"

text \<open>
  The \<open>partial\<close> argument of \<open>setConsent\<close>: a field is \<open>None\<close> when the object does not
  have it, and a category it has is a boolean, as in the record. \<open>{...curr, ...partial,
  ts: Date.now()}\<close> takes each category from \<open>partial\<close> when it is there and from \<open>curr\<close>
  otherwise; \<open>ts\<close> is always the clock's, whatever \<open>partial.ts\<close> is.
\<close>

record partial_consent =
  p_analytics :: "bool option"
  p_experiments :: "bool option"
  p_marketing :: "bool option"
  p_ts :: "int option"

definition merge_consent :: "jsnum ConsentRecord \<Rightarrow> partial_consent \<Rightarrow> int \<Rightarrow> int ConsentRecord" where
  "merge_consent current partial now =
     \<lparr>analytics = (case p_analytics partial of None \<Rightarrow> analytics current | Some b \<Rightarrow> b),
      experiments = (case p_experiments partial of None \<Rightarrow> experiments current | Some b \<Rightarrow> b),
      marketing = (case p_marketing partial of None \<Rightarrow> marketing current | Some b \<Rightarrow> b),
      ts = now\<rparr>"

definition consent_options :: "int \<Rightarrow> cookie_options" where
  "consent_options ttlDays =
     no_options\<lparr>opt_expiresDays := Some ttlDays, opt_sameSite := Some (js ''Lax''),
                opt_secure := Some True\<rparr>"

text \<open>\<open>setConsent(partial, ttlDays = 365)\<close>; \<open>ttlDays\<close> is \<open>None\<close> when the caller leaves it out.\<close>

definition setConsent :: "partial_consent \<Rightarrow> int option \<Rightarrow> env \<Rightarrow> error + (int ConsentRecord \<times> env)" where
  "setConsent partial ttlDays env =
     (case getConsent env of
        Inl e \<Rightarrow> Inl e
      | Inr (current, env1) \<Rightarrow>
          (let next = merge_consent current partial (clock env1)
           in case setCookie CONSENT_COOKIE (JStr (encodeConsent (clock env1) next))
                     (consent_options (case ttlDays of None \<Rightarrow> 365 | Some d \<Rightarrow> d)) env1 of
                Inl e \<Rightarrow> Inl e
              | Inr env2 \<Rightarrow> Inr (next, env2)))"

text \<open>\<open>hasConsent(category)\<close>: \<open>c[category] === true\<close>, false for any other property name.\<close>

definition hasConsent :: "jsstring \<Rightarrow> env \<Rightarrow> error + (bool \<times> env)" where
  "hasConsent category env =
     (case getConsent env of
        Inl e \<Rightarrow> Inl e
      | Inr (c, env') \<Rightarrow>
          Inr (if category = js ''analytics'' then analytics c
               else if category = js ''experiments'' then experiments c
               else if category = js ''marketing'' then marketing c
               else False, env'))"

text \<open>
  The \<open>options\<close> argument of \<open>assignAB\<close>: \<open>variants\<close> defaults to \<open>['A', 'B']\<close> and
  \<open>ttlDays\<close> to 14.
\<close>

record ab_options =
  variants :: "jsstring list option"
  ttlDays :: "int option"

definition ab_variants :: "ab_options \<Rightarrow> jsstring list" where
  "ab_variants options = (case variants options of None \<Rightarrow> [js ''A'', js ''B''] | Some l \<Rightarrow> l)"

definition ab_ttlDays :: "ab_options \<Rightarrow> int" where
  "ab_ttlDays options = (case ttlDays options of None \<Rightarrow> 14 | Some d \<Rightarrow> d)"

text \<open>\<open>variants[i]\<close>: \<open>undefined\<close> outside the array.\<close>

definition element_at :: "jsstring list \<Rightarrow> int \<Rightarrow> jsval" where
  "element_at vs i = (if 0 \<le> i \<and> nat i < length vs then JStr (vs ! nat i) else JUndefined)"

text \<open>\<open>v && variants.includes(v)\<close> for \<open>v\<close> a string or \<open>null\<close>.\<close>

definition valid_variant :: "jsstring list \<Rightarrow> jsval \<Rightarrow> bool" where
  "valid_variant vs v = (case v of JStr s \<Rightarrow> s \<noteq> [] \<and> s \<in> set vs | _ \<Rightarrow> False)"

text \<open>\<open>assignAB(options)\<close>; \<open>r\<close> is what \<open>Math.random()\<close> returns.\<close>

definition assignAB :: "ab_options \<Rightarrow> real \<Rightarrow> env \<Rightarrow> error + (jsval \<times> env)" where
  "assignAB options r env =
     (let vs = ab_variants options;
          ttl = ab_ttlDays options
      in case hasConsent (js ''experiments'') env of
           Inl e \<Rightarrow> Inl e
         | Inr (ok, env1) \<Rightarrow>
             if \<not> ok then Inr (JNull, env1)
             else
               (case getCookie AB_COOKIE env1 of
                  Inl e \<Rightarrow> Inl e
                | Inr (v, env2) \<Rightarrow>
                    if valid_variant vs v then Inr (v, env2)
                    else
                      (let v' = element_at vs \<lfloor>r * real (length vs)\<rfloor>
                       in case setCookie AB_COOKIE v' (consent_options ttl) env2 of
                            Inl e \<Rightarrow> Inl e
                          | Inr env3 \<Rightarrow> Inr (v', env3))))"

section \<open>The second implementation: tangled-consent.js\<close>

text \<open>
  The functions of \<open>tangled-consent.js\<close> carry the prefix \<open>tc_\<close>. Its \<open>setCookie\<close>
  tests \<open>opts.expiresDays\<close> for truth (0 writes no \<open>Expires\<close>), knows no \<open>expires\<close>
  option and always writes \<open>Path\<close> and \<open>SameSite\<close>.
\<close>

definition tc_setCookie :: "jsstring \<Rightarrow> jsval \<Rightarrow> cookie_options \<Rightarrow> env \<Rightarrow> error + env" where
  "tc_setCookie name value options env =
     (let path = (case opt_path options of None \<Rightarrow> js ''/'' | Some p \<Rightarrow> p);
          sameSite = (case opt_sameSite options of None \<Rightarrow> js ''Lax'' | Some x \<Rightarrow> x);
          secure = (case opt_secure options of None \<Rightarrow> True | Some b \<Rightarrow> b)
      in case encodeURIComponent name of
           Inl e \<Rightarrow> Inl e
         | Inr n \<Rightarrow>
             (case encodeURIComponent (String_of value) of
                Inl e \<Rightarrow> Inl e
              | Inr v \<Rightarrow>
                  (let expires =
                         (case opt_expiresDays options of
                            Some days \<Rightarrow>
                              if days \<noteq> 0 then Some (Date_setTime (clock env + days * 86400000))
                              else None
                          | None \<Rightarrow> None);
                       cookie =
                         n @ js ''='' @ v
                         @ (case expires of
                              Some d \<Rightarrow> js ''; Expires='' @ toUTCString d
                            | None \<Rightarrow> [])
                         @ js ''; Path='' @ path @ js ''; SameSite='' @ sameSite
                         @ (if secure then js ''; Secure'' else [])
                   in document_cookie_assign cookie (expires_instant expires) env)))"

definition tc_getCookie :: "jsstring \<Rightarrow> env \<Rightarrow> error + (jsval \<times> env)" where
  "tc_getCookie name env =
     (case encodeURIComponent name of
        Inl e \<Rightarrow> Inl e
      | Inr n \<Rightarrow>
          (case cookies env of
             None \<Rightarrow> Inl ReferenceError
           | Some jar \<Rightarrow>
               (case find_cookie (n @ js ''='') (split_on (ch CHR '';'') (cookie_text jar)) of
                  Inl e \<Rightarrow> Inl e
                | Inr v \<Rightarrow> Inr (v, env\<lparr>trace := trace env @ [CookieRead name]\<rparr>))))"

text \<open>The loop body of its \<open>getConsent\<close>: as \<open>decode_pair\<close>, without the test for an empty key.\<close>

definition tc_decode_pair :: "jsnum ConsentRecord \<Rightarrow> jsstring \<Rightarrow> jsnum ConsentRecord" where
  "tc_decode_pair out pair =
     (let kv = split_on (ch CHR ''='') pair;
          k = hd kv;
          v = (case tl kv of [] \<Rightarrow> None | x # _ \<Rightarrow> Some x)
      in if k = js ''a'' then out\<lparr>analytics := (v = Some (js ''1''))\<rparr>
         else if k = js ''e'' then out\<lparr>experiments := (v = Some (js ''1''))\<rparr>
         else if k = js ''m'' then out\<lparr>marketing := (v = Some (js ''1''))\<rparr>
         else if k = js ''ts'' then out\<lparr>ts := or_zero (Number_of v)\<rparr>
         else out)"

fun tc_decode_loop :: "jsnum ConsentRecord \<Rightarrow> jsstring list \<Rightarrow> jsnum ConsentRecord" where
  "tc_decode_loop out [] = out"
| "tc_decode_loop out (pair # pairs) = tc_decode_loop (tc_decode_pair out pair) pairs"

definition tc_getConsent :: "env \<Rightarrow> error + (jsnum ConsentRecord \<times> env)" where
  "tc_getConsent env =
     (case tc_getCookie CONSENT_COOKIE env of
        Inl e \<Rightarrow> Inl e
      | Inr (str, env') \<Rightarrow>
          Inr (case str of
                 JStr s \<Rightarrow>
                   if s = [] then DEFAULT_CONSENT
                   else tc_decode_loop DEFAULT_CONSENT (split_on (ch CHR ''|'') s)
               | _ \<Rightarrow> DEFAULT_CONSENT, env'))"

definition tc_setConsent :: "partial_consent \<Rightarrow> env \<Rightarrow> error + (int ConsentRecord \<times> env)" where
  "tc_setConsent partial env =
     (case tc_getConsent env of
        Inl e \<Rightarrow> Inl e
      | Inr (current, env1) \<Rightarrow>
          (let next = merge_consent current partial (clock env1);
               val = js ''a='' @ bit01 (analytics next) @ js ''|e='' @ bit01 (experiments next)
                     @ js ''|m='' @ bit01 (marketing next) @ js ''|ts='' @ Number_toString (ts next)
           in case tc_setCookie CONSENT_COOKIE (JStr val)
                     (no_options\<lparr>opt_expiresDays := Some 365\<rparr>) env1 of
                Inl e \<Rightarrow> Inl e
              | Inr env2 \<Rightarrow> Inr (next, env2)))"

text \<open>A string whose \<open>|\<close>-separated pairs all have a key other than \<open>a\<close>, \<open>e\<close>, \<open>m\<close>, \<open>ts\<close>.\<close>

definition unknown_keys_only :: "jsstring \<Rightarrow> bool" where
  "unknown_keys_only s \<longleftrightarrow>
     (\<forall>pair \<in> set (split_on (ch CHR ''|'') s).
        hd (split_on (ch CHR ''='') pair) \<notin> {js ''a'', js ''e'', js ''m'', js ''ts''})"

section \<open>The consent state and well-formed jars\<close>

text \<open>The state is Set when the stored record's timestamp is positive, Unset otherwise.\<close>

definition positive :: "jsnum \<Rightarrow> bool" where
  "positive x = (case x of Fin q \<Rightarrow> 0 < q | PosInf \<Rightarrow> True | _ \<Rightarrow> False)"

definition consent_set :: "env \<Rightarrow> bool" where
  "consent_set env = (case getConsent env of Inl e \<Rightarrow> False | Inr (c, env') \<Rightarrow> positive (ts c))"

text \<open>
  A well-formed jar: neither name nor value of a cookie holds a \<open>;\<close>, a name holds no
  \<open>=\<close> and does not begin with a code unit that \<open>trim\<close> strips, and a cookie without a
  name has no \<open>=\<close> in its value. The browser's parsing of a cookie text gives the first
  three; the last two exclude the jars in which the text of one cookie passes for another
  cookie's name. Every cookie these functions write is well-formed.
\<close>

definition wf_pair :: "jsstring \<times> jsstring \<Rightarrow> bool" where
  "wf_pair p \<longleftrightarrow>
     ch CHR '';'' \<notin> set (fst p) \<and> ch CHR '';'' \<notin> set (snd p) \<and> ch CHR ''='' \<notin> set (fst p)
     \<and> (if fst p = [] then ch CHR ''='' \<notin> set (snd p) else \<not> is_space (hd (fst p)))"

definition wf_jar :: "jar \<Rightarrow> bool" where
  "wf_jar jar = list_all wf_pair jar"

section \<open>Properties of the string and number primitives\<close>

lemma split_on_notin: "c \<notin> set xs \<Longrightarrow> split_on c xs = [xs]"
  by (induction xs) auto

lemma split_on_append: "c \<notin> set xs \<Longrightarrow> split_on c (xs @ c # ys) = xs # split_on c ys"
  by (induction xs) auto

lemma unat_digit: "d < 10 \<Longrightarrow> unat (of_nat (48 + d) :: 16 word) = 48 + d"
  by (simp add: unat_of_nat del: of_nat_add)

lemma is_digit_iff: "is_digit c \<longleftrightarrow> 48 \<le> unat c \<and> unat c \<le> 57"
  by (simp add: is_digit_def word_le_nat_alt)

lemma is_digit_of_nat: "d < 10 \<Longrightarrow> is_digit (of_nat (48 + d))"
  using unat_digit [of d] by (simp add: is_digit_iff del: of_nat_add)

lemma show_nat_digits: "list_all is_digit (show_nat n)"
proof (induction n rule: show_nat.induct)
  case (1 n)
  show ?case
  proof (cases "n < 10")
    case True
    then show ?thesis using is_digit_of_nat [of n] by (simp add: show_nat.simps [of n] del: of_nat_add)
  next
    case False
    then show ?thesis using 1 is_digit_of_nat [of "n mod 10"]
      by (simp add: show_nat.simps [of n] del: of_nat_add)
  qed
qed

lemma show_nat_nonempty: "show_nat n \<noteq> []"
  by (simp add: show_nat.simps [of n])

lemma digit_val_of_nat: "d < 10 \<Longrightarrow> digit_val (of_nat (48 + d)) = d"
  using unat_digit [of d] by (simp add: digit_val_def del: of_nat_add)

lemma digits_val_snoc: "digits_val (ds @ [c]) = 10 * digits_val ds + digit_val c"
  by (simp add: digits_val_def)

lemma digits_val_show_nat: "digits_val (show_nat n) = n"
proof (induction n rule: show_nat.induct)
  case (1 n)
  show ?case
  proof (cases "n < 10")
    case True
    then show ?thesis using digit_val_of_nat [of n]
      by (simp add: show_nat.simps [of n] digits_val_def del: of_nat_add)
  next
    case False
    then show ?thesis using 1 digit_val_of_nat [of "n mod 10"]
      by (simp add: show_nat.simps [of n] digits_val_snoc del: of_nat_add)
  qed
qed


lemma trim_id: "s = [] \<or> (\<not> is_space (hd s) \<and> \<not> is_space (last s)) \<Longrightarrow> trim s = s"
proof (cases s)
  case Nil
  then show ?thesis by (simp add: trim_def)
next
  case (Cons x xs)
  assume "s = [] \<or> (\<not> is_space (hd s) \<and> \<not> is_space (last s))"
  with Cons have h: "\<not> is_space x" and l: "\<not> is_space (last s)" by auto
  from h Cons have 1: "dropWhile is_space s = s" by simp
  from Cons have "rev s \<noteq> []" by simp
  then obtain y ys where r: "rev s = y # ys" by (cases "rev s") auto
  then have "y = last s" using Cons by (metis hd_rev list.sel(1))
  with l have "dropWhile is_space (y # ys) = y # ys" by simp
  then have "dropWhile is_space (rev s) = rev s" unfolding r .
  with 1 show ?thesis by (simp add: trim_def)
qed

lemma digit_not_space: "is_digit c \<Longrightarrow> \<not> is_space c"
  by (auto simp: is_digit_iff is_space_def word_le_nat_alt)

lemma digit_neq:
  "is_digit c \<Longrightarrow> c \<noteq> ch CHR ''|'' \<and> c \<noteq> ch CHR ''='' \<and> c \<noteq> ch CHR '';'' \<and> c \<noteq> ch CHR ''-''
     \<and> c \<noteq> ch CHR ''+'' \<and> c \<noteq> ch CHR ''.'' \<and> c \<noteq> ch CHR ''x'' \<and> c \<noteq> ch CHR ''X''
     \<and> c \<noteq> ch CHR ''o'' \<and> c \<noteq> ch CHR ''O'' \<and> c \<noteq> ch CHR ''b'' \<and> c \<noteq> ch CHR ''B''
     \<and> c \<noteq> ch CHR ''I'' \<and> c \<noteq> ch CHR ''%''"
  by (auto simp: is_digit_iff ch_def)

lemma takeWhile_all: "list_all P xs \<Longrightarrow> takeWhile P xs = xs"
  by (induction xs) auto

lemma dropWhile_all: "list_all P xs \<Longrightarrow> dropWhile P xs = []"
  by (induction xs) auto

lemma StrUnsignedDecimalLiteral_digits:
  assumes "list_all is_digit ds" "ds \<noteq> []"
  shows "StrUnsignedDecimalLiteral ds = Fin (of_nat (digits_val ds))"
proof -
  obtain c cs where ds: "ds = c # cs" using assms(2) by (cases ds) auto
  with assms(1) have "is_digit c" by simp
  then have "c \<noteq> ch CHR ''I''" using digit_neq by blast
  then have "ds \<noteq> js ''Infinity''" using ds by (auto simp: js_def)
  then show ?thesis
    using assms
    by (simp add: StrUnsignedDecimalLiteral_def takeWhile_all dropWhile_all ExponentPart_def exp10_def)
qed

lemma StringToNumber_digits:
  assumes "list_all is_digit ds" "ds \<noteq> []"
  shows "StringToNumber ds = Fin (of_nat (digits_val ds))"
proof -
  obtain c cs where ds: "ds = c # cs" using assms(2) by (cases ds) auto
  have c: "is_digit c" using assms(1) ds by simp
  have "is_digit (last ds)" using assms by (simp add: list_all_iff)
  then have t: "trim ds = ds" using c ds by (intro trim_id) (auto dest: digit_not_space)
  have p: "\<not> startsWith ds [x, y]" if "\<not> is_digit y" for x y
  proof (cases cs)
    case Nil
    then show ?thesis using ds by (simp add: startsWith_def)
  next
    case (Cons d ds')
    then have "is_digit d" using assms(1) ds by simp
    then show ?thesis using ds Cons that by (auto simp: startsWith_def)
  qed
  have nd: "\<not> is_digit (ch CHR ''x'')" "\<not> is_digit (ch CHR ''X'')" "\<not> is_digit (ch CHR ''o'')"
    "\<not> is_digit (ch CHR ''O'')" "\<not> is_digit (ch CHR ''b'')" "\<not> is_digit (ch CHR ''B'')"
    using digit_neq by blast+
  have s: "hd ds \<noteq> ch CHR ''+''" "hd ds \<noteq> ch CHR ''-''"
    using c ds digit_neq by auto
  show ?thesis
    using assms t s p nd
    by (simp add: StringToNumber_def js_def StrUnsignedDecimalLiteral_digits)
qed

lemma StringToNumber_show_nat: "StringToNumber (show_nat n) = Fin (of_nat n)"
  by (simp add: StringToNumber_digits show_nat_digits show_nat_nonempty digits_val_show_nat)


lemma StringToNumber_Number_toString: "StringToNumber (Number_toString n) = Fin (of_int n)"
proof (cases "n < 0")
  case False
  then show ?thesis by (simp add: Number_toString_def StringToNumber_show_nat)
next
  case True
  define ds where "ds = show_nat (nat (- n))"
  have d: "list_all is_digit ds" "ds \<noteq> []" "digits_val ds = nat (- n)"
    by (simp_all add: ds_def show_nat_digits show_nat_nonempty digits_val_show_nat)
  have "is_digit (last ds)" using d by (simp add: list_all_iff)
  then have l: "\<not> is_space (last (ch CHR ''-'' # ds))" using d(2) by (simp add: digit_not_space)
  have "\<not> is_space (ch CHR ''-'')" by (simp add: is_space_def ch_def)
  with l have t: "trim (ch CHR ''-'' # ds) = ch CHR ''-'' # ds" by (intro trim_id) simp
  have "StringToNumber (ch CHR ''-'' # ds) = negate (StrUnsignedDecimalLiteral ds)"
    by (simp add: StringToNumber_def t) (simp add: startsWith_def js_def ch_def)
  also have "\<dots> = Fin (- of_nat (nat (- n)))"
    using d by (simp add: StrUnsignedDecimalLiteral_digits negate_def)
  also have "\<dots> = Fin (of_int n)" using True by simp
  finally show ?thesis using True by (simp add: Number_toString_def ds_def)
qed

lemma Number_toString_chars:
  "ch CHR ''|'' \<notin> set (Number_toString n)" "ch CHR ''='' \<notin> set (Number_toString n)"
  "ch CHR '';'' \<notin> set (Number_toString n)" "ch CHR ''%'' \<notin> set (Number_toString n)"
proof -
  have "\<forall>c \<in> set (show_nat k). is_digit c" for k
    using show_nat_digits [of k] by (simp add: list_all_iff)
  then have "\<forall>c \<in> set (Number_toString n). is_digit c \<or> c = ch CHR ''-''"
    by (auto simp: Number_toString_def)
  moreover have "ch CHR ''-'' \<noteq> ch CHR ''|''" "ch CHR ''-'' \<noteq> ch CHR ''=''" "ch CHR ''-'' \<noteq> ch CHR '';''"
    "ch CHR ''-'' \<noteq> ch CHR ''%''"
    by (simp_all add: ch_def)
  ultimately show "ch CHR ''|'' \<notin> set (Number_toString n)" "ch CHR ''='' \<notin> set (Number_toString n)"
    "ch CHR '';'' \<notin> set (Number_toString n)" "ch CHR ''%'' \<notin> set (Number_toString n)"
    using digit_neq by metis+
qed

text \<open>Decoding the text the encoder writes, for any flags and any timestamp text.\<close>

lemma decodeConsent_fields:
  assumes "ch CHR ''|'' \<notin> set d" "ch CHR ''='' \<notin> set d"
  shows "decodeConsent (JStr (js ''a='' @ bit01 a @ js ''|e='' @ bit01 e @ js ''|m='' @ bit01 m @ js ''|ts='' @ d))
    = \<lparr>analytics = a, experiments = e, marketing = m, ts = or_zero (StringToNumber d)\<rparr>"
proof -
  have 1: "split_on 124 d = [d]" "split_on 61 d = [d]"
    using assms by (simp_all add: split_on_notin ch_def)
  show ?thesis
    by (cases a; cases e; cases m)
      (simp_all add: decodeConsent_def js_def ch_def bit01_def 1 decode_pair_def
        DEFAULT_CONSENT_def Number_of_def)
qed

section \<open>The consent codec: round trip and defaults\<close>

lemma decodeConsent_encodeConsent:
  "decodeConsent (JStr (encodeConsent now r))
     = as_decoded (r\<lparr>ts := (if ts r = 0 then now else ts r)\<rparr>)"
proof -
  define t where "t = (if ts r = 0 then now else ts r)"
  have "decodeConsent (JStr (encodeConsent now r))
      = \<lparr>analytics = analytics r, experiments = experiments r, marketing = marketing r,
         ts = or_zero (StringToNumber (Number_toString t))\<rparr>"
    unfolding encodeConsent_def Let_def t_def
    by (simp add: decodeConsent_fields Number_toString_chars)
  then show ?thesis
    by (simp add: StringToNumber_Number_toString or_zero_def as_decoded_def t_def)
qed

text \<open>
  C1, as the code has it. For a record with a positive timestamp, decoding the encoded
  record gives the record back. For \<open>ts = 0\<close> the encoder writes the clock (\<open>obj.ts ||
  Date.now()\<close>), so decoding gives the record stamped with the current time.
\<close>

theorem decode_encode_roundtrip:
  "(0 < ts r \<longrightarrow> decodeConsent (JStr (encodeConsent now r)) = as_decoded r)
   \<and> (ts r = 0 \<longrightarrow> decodeConsent (JStr (encodeConsent now r)) = as_decoded (r\<lparr>ts := now\<rparr>))"
  by (simp add: decodeConsent_encodeConsent)

theorem decode_encode_roundtrip_witness:
  "decodeConsent (JStr (encodeConsent 1700000000000
      \<lparr>analytics = True, experiments = False, marketing = True, ts = 1690000000000\<rparr>))
     = \<lparr>analytics = True, experiments = False, marketing = True, ts = Fin 1690000000000\<rparr>
   \<and> decodeConsent (JStr (encodeConsent 1700000000000
      \<lparr>analytics = True, experiments = False, marketing = True, ts = 0\<rparr>))
     = \<lparr>analytics = True, experiments = False, marketing = True, ts = Fin 1700000000000\<rparr>"
  using decode_encode_roundtrip
      [of "\<lparr>analytics = True, experiments = False, marketing = True, ts = 1690000000000\<rparr>"
        1700000000000]
    decode_encode_roundtrip
      [of "\<lparr>analytics = True, experiments = False, marketing = True, ts = 0\<rparr>" 1700000000000]
  by (simp add: as_decoded_def)

text \<open>
  C1 as stated fails at \<open>ts = 0\<close>: with the clock at 1700000000000, the all-false record
  with \<open>ts = 0\<close> does not come back.
\<close>

theorem roundtrip_ts0_counterexample:
  "decodeConsent (JStr (encodeConsent 1700000000000
      \<lparr>analytics = False, experiments = False, marketing = False, ts = 0\<rparr>))
   \<noteq> as_decoded \<lparr>analytics = False, experiments = False, marketing = False, ts = 0\<rparr>"
  by (simp add: decodeConsent_encodeConsent as_decoded_def)

lemma decode_pair_unknown:
  "hd (split_on (ch CHR ''='') pair) \<notin> {js ''a'', js ''e'', js ''m'', js ''ts''}
    \<Longrightarrow> decode_pair out pair = out"
  by (simp add: decode_pair_def Let_def)

lemma decode_loop_unknown:
  "\<forall>pair \<in> set pairs. hd (split_on (ch CHR ''='') pair) \<notin> {js ''a'', js ''e'', js ''m'', js ''ts''}
    \<Longrightarrow> decode_loop out pairs = out"
  by (induction pairs arbitrary: out) (simp_all add: decode_pair_unknown del: insert_iff)

text \<open>
  C4. \<open>decodeConsent\<close> is a total function to records: it has no failing branch. On the
  empty string, on a value that is not a string, and on a string whose pairs have unknown
  keys only, it returns the default record.
\<close>

theorem decodeConsent_default:
  "v = JStr [] \<or> (\<forall>s. v \<noteq> JStr s) \<or> (\<exists>s. v = JStr s \<and> unknown_keys_only s)
    \<Longrightarrow> decodeConsent v = DEFAULT_CONSENT"
  by (cases v) (auto simp: decodeConsent_def unknown_keys_only_def decode_loop_unknown)

theorem decodeConsent_default_witness:
  "decodeConsent (JStr []) = \<lparr>analytics = False, experiments = False, marketing = False, ts = Fin 0\<rparr>
   \<and> decodeConsent JNull = \<lparr>analytics = False, experiments = False, marketing = False, ts = Fin 0\<rparr>
   \<and> decodeConsent (JNum 1) = \<lparr>analytics = False, experiments = False, marketing = False, ts = Fin 0\<rparr>
   \<and> decodeConsent (JStr (js ''x=1|theme=dark||=1|A=1|tsx=5''))
       = \<lparr>analytics = False, experiments = False, marketing = False, ts = Fin 0\<rparr>"
proof -
  have "unknown_keys_only (js ''x=1|theme=dark||=1|A=1|tsx=5'')"
    by (simp add: unknown_keys_only_def js_def ch_def)
  then show ?thesis
    using decodeConsent_default [of "JStr []"] decodeConsent_default [of JNull]
      decodeConsent_default [of "JNum 1"]
      decodeConsent_default [of "JStr (js ''x=1|theme=dark||=1|A=1|tsx=5'')"]
    by (simp add: DEFAULT_CONSENT_def)
qed

section \<open>Evaluation\<close>

text \<open>The defining equations that evaluate the functions on a concrete jar.\<close>

lemmas eval_simps = js_def ch_def trim_def is_space_def startsWith_def StringToNumber_def
  StrUnsignedDecimalLiteral_def ExponentPart_def is_digit_def digits_val_def digit_val_def exp10_def
  radix_val_def hexval_def negate_def Number_of_def or_zero_def decodeConsent_def decode_pair_def
  DEFAULT_CONSENT_def Let_def uri_unreserved_def is_alnum_def is_low_surrogate_def
  is_high_surrogate_def emit_def pct_encode_def pct_def utf8_octets_def hex_digit_def
  leading_ones_def is_cont_def utf16_units_def encodeConsent_def bit01_def Number_toString_def
  show_nat.simps Date_setTime_def civil_from_days_def civil_of_era_def civil_of_doe_def
  civil_of_yoe_def civil_of_doy_def civil_of_mp_def utc_string_def utc_fields_def pad2_def
  pad_year_def day_name_def month_name_def cookie_text_def render_pair_def cookie_pair_def
  name_value_def store_cookie_def document_cookie_assign_def CONSENT_COOKIE_def AB_COOKIE_def
  no_options_def setCookie_def getCookie_def getConsent_def merge_consent_def consent_options_def
  setConsent_def hasConsent_def element_at_def valid_variant_def ab_variants_def ab_ttlDays_def
  assignAB_def positive_def consent_set_def wf_jar_def wf_pair_def as_decoded_def

section \<open>Percent-encoding of text below 0x80\<close>

lemma hexval_unat:
  "hexval c =
     (if 48 \<le> unat c \<and> unat c \<le> 57 then Some (unat c - 48)
      else if 65 \<le> unat c \<and> unat c \<le> 70 then Some (unat c - 55)
      else if 97 \<le> unat c \<and> unat c \<le> 102 then Some (unat c - 87)
      else None)"
  by (simp add: hexval_def word_le_nat_alt)

lemma is_alnum_unat:
  "is_alnum c \<longleftrightarrow>
     (48 \<le> unat c \<and> unat c \<le> 57) \<or> (65 \<le> unat c \<and> unat c \<le> 90) \<or> (97 \<le> unat c \<and> unat c \<le> 122)"
  by (simp add: is_alnum_def word_le_nat_alt)

lemma unat_hex_digit: "d < 16 \<Longrightarrow> unat (hex_digit d) = (if d < 10 then 48 + d else 55 + d)"
  by (simp add: hex_digit_def unat_of_nat del: of_nat_add)

lemma hexval_hex_digit: "d < 16 \<Longrightarrow> hexval (hex_digit d) = Some d"
  by (simp add: hexval_unat unat_hex_digit)

lemma hex_digit_unreserved: "d < 16 \<Longrightarrow> uri_unreserved (hex_digit d)"
  by (simp add: uri_unreserved_def is_alnum_unat unat_hex_digit)

lemma ascii_not_surrogate:
  "(c::16 word) < 0x80 \<Longrightarrow> \<not> is_low_surrogate c \<and> \<not> is_high_surrogate c"
  by (simp add: is_low_surrogate_def is_high_surrogate_def word_le_nat_alt word_less_nat_alt)

lemma pct_encode_ascii: "(c::16 word) < 0x80 \<Longrightarrow> pct_encode (unat c) = pct (unat c)"
  by (simp add: pct_encode_def utf8_octets_def word_less_nat_alt)

lemma encode_ascii:
  "\<forall>c \<in> set s. c < 0x80 \<Longrightarrow>
     encodeURIComponent s = Inr (concat (map (\<lambda>c. if uri_unreserved c then [c] else pct (unat c)) s))"
proof (induction s rule: encodeURIComponent.induct)
  case 1
  then show ?case by simp
next
  case (2 c)
  then show ?case by (simp add: ascii_not_surrogate pct_encode_ascii)
next
  case (3 c d cs)
  then show ?case by (simp add: ascii_not_surrogate pct_encode_ascii emit_def)
qed

lemma uri_unreserved_unat:
  "uri_unreserved c \<longleftrightarrow>
     is_alnum c \<or> unat c \<in> {45, 95, 46, 33, 126, 42, 39, 40, 41}"
  by (simp add: uri_unreserved_def word_unat_eq_iff)

lemma is_space_unat:
  "is_space c \<longleftrightarrow>
     unat c \<in> {9, 10, 11, 12, 13, 32, 160, 5760, 8232, 8233, 8239, 8287, 12288, 65279}
     \<or> (8192 \<le> unat c \<and> unat c \<le> 8202)"
  by (simp add: is_space_def word_unat_eq_iff word_le_nat_alt)

lemma unreserved_not_pct: "uri_unreserved c \<Longrightarrow> c \<noteq> 0x25"
  by (auto simp: uri_unreserved_unat is_alnum_unat)

lemma encoded_char:
  "uri_unreserved x \<or> x = 0x25 \<Longrightarrow> x \<noteq> ch CHR '';'' \<and> x \<noteq> ch CHR ''='' \<and> \<not> is_space x"
  by (auto simp: uri_unreserved_unat is_alnum_unat is_space_unat ch_def)

lemma decode_pct_ascii:
  assumes "(c::16 word) < 0x80"
  shows "decodeURIComponent (pct (unat c) @ rest) = emit [c] (decodeURIComponent rest)"
proof -
  have u: "unat c < 128" using assms by (simp add: word_less_nat_alt)
  then have "unat c div 16 < 16" "unat c mod 16 < 16" by simp_all
  then have h: "hexval (hex_digit (unat c div 16)) = Some (unat c div 16)"
    "hexval (hex_digit (unat c mod 16)) = Some (unat c mod 16)"
    by (simp_all add: hexval_hex_digit)
  have "leading_ones (unat c) = 0" using u by (simp add: leading_ones_def)
  then show ?thesis using h by (simp add: pct_def)
qed

lemma decode_encode_ascii:
  assumes "\<forall>c \<in> set s. c < 0x80"
  shows "decodeURIComponent (concat (map (\<lambda>c. if uri_unreserved c then [c] else pct (unat c)) s)) = Inr s"
  using assms
proof (induction s)
  case Nil
  then show ?case by simp
next
  case (Cons c s)
  then show ?case
    by (cases "uri_unreserved c") (simp_all add: unreserved_not_pct decode_pct_ascii emit_def)
qed

lemma encode_ascii_chars:
  assumes "\<forall>c \<in> set s. c < 0x80"
  shows "\<forall>x \<in> set (concat (map (\<lambda>c. if uri_unreserved c then [c] else pct (unat c)) s)).
           uri_unreserved x \<or> x = 0x25"
proof -
  have "uri_unreserved (hex_digit (unat c div 16)) \<and> uri_unreserved (hex_digit (unat c mod 16))"
    if "c < 0x80" for c :: "16 word"
  proof -
    have "unat c < 128" using that by (simp add: word_less_nat_alt)
    then have "unat c div 16 < 16" "unat c mod 16 < 16" by simp_all
    then show ?thesis by (simp add: hex_digit_unreserved)
  qed
  then show ?thesis using assms by (auto simp: pct_def)
qed

section \<open>Reading the jar\<close>

lemma encode_CONSENT_COOKIE: "encodeURIComponent CONSENT_COOKIE = Inr CONSENT_COOKIE"
  by (simp add: CONSENT_COOKIE_def eval_simps)

lemma encode_AB_COOKIE: "encodeURIComponent AB_COOKIE = Inr AB_COOKIE"
  by (simp add: AB_COOKIE_def eval_simps)

lemma find_cookie_find:
  "find_cookie target parts =
     (case find (\<lambda>part. startsWith (trim part) target) parts of
        None \<Rightarrow> Inr JNull
      | Some part \<Rightarrow>
          (case decodeURIComponent (drop (length target) (trim part)) of
             Inl e \<Rightarrow> Inl e
           | Inr s \<Rightarrow> Inr (JStr s)))"
  by (induction parts) (simp_all add: Let_def)

lemma getCookie_env:
  "getCookie name env = Inr (v, env') \<Longrightarrow> env' = env\<lparr>trace := trace env @ [CookieRead name]\<rparr>"
  by (auto simp: getCookie_def split: sum.splits option.splits)

lemma getConsent_env:
  "getConsent env = Inr (c, env') \<Longrightarrow> env' = env\<lparr>trace := trace env @ [CookieRead CONSENT_COOKIE]\<rparr>"
  by (auto simp: getConsent_def split: sum.splits dest: getCookie_env)

lemma hasConsent_experiments:
  "getConsent env = Inr (c, env') \<Longrightarrow> hasConsent (js ''experiments'') env = Inr (experiments c, env')"
  by (simp add: hasConsent_def js_def)

lemma hasConsent_of_getConsent:
  "getConsent env = Inr (c, env') \<Longrightarrow>
     hasConsent (js ''analytics'') env = Inr (analytics c, env')
     \<and> hasConsent (js ''experiments'') env = Inr (experiments c, env')
     \<and> hasConsent (js ''marketing'') env = Inr (marketing c, env')"
  by (simp add: hasConsent_def js_def ch_def)

text \<open>What \<open>setCookie\<close> writes under the options the consent store and \<open>assignAB\<close> pass.\<close>

lemma setCookie_consent_options:
  assumes "cookies env = Some jar" "encodeURIComponent name = Inr n"
    "encodeURIComponent (String_of value) = Inr v"
  shows "setCookie name value (consent_options ttl) env =
     Inr (env\<lparr>cookies := Some (store_cookie
            (n @ js ''='' @ v @ js ''; Expires='' @ toUTCString (Date_setTime (clock env + ttl * 86400000))
               @ js ''; Path=/; SameSite=Lax; Secure'')
            (expires_instant (Some (Date_setTime (clock env + ttl * 86400000)))) (clock env) jar),
          trace := trace env @ [CookieWrite
            (n @ js ''='' @ v @ js ''; Expires='' @ toUTCString (Date_setTime (clock env + ttl * 86400000))
               @ js ''; Path=/; SameSite=Lax; Secure'')]\<rparr>)"
  using assms
  by (simp add: setCookie_def consent_options_def no_options_def document_cookie_assign_def js_def Let_def)

lemma floor_index:
  assumes "0 \<le> r" "r < 1" "0 < n"
  shows "0 \<le> \<lfloor>r * real n\<rfloor> \<and> nat \<lfloor>r * real n\<rfloor> < n"
proof -
  have "0 \<le> r * real n" using assms by simp
  then have a: "0 \<le> \<lfloor>r * real n\<rfloor>" by simp
  have "r * real n < real n" using assms by simp
  then have "\<lfloor>r * real n\<rfloor> < int n" by (simp add: floor_less_iff)
  with a show ?thesis by linarith
qed

section \<open>The two implementations\<close>

lemma tc_getCookie_eq: "tc_getCookie = getCookie"
  by (intro ext) (simp add: tc_getCookie_def getCookie_def)

lemma tc_decode_pair_eq: "tc_decode_pair out pair = decode_pair out pair"
  by (simp add: tc_decode_pair_def decode_pair_def Let_def js_def)

lemma tc_decode_loop_eq: "tc_decode_loop out pairs = decode_loop out pairs"
  by (induction pairs arbitrary: out) (simp_all add: tc_decode_pair_eq)

lemma tc_getConsent_eq: "tc_getConsent env = getConsent env"
  by (simp add: tc_getConsent_def getConsent_def tc_getCookie_eq decodeConsent_def tc_decode_loop_eq
      split: sum.splits jsval.splits)

lemma tc_setCookie_365:
  "tc_setCookie name value (no_options\<lparr>opt_expiresDays := Some 365\<rparr>) env
    = setCookie name value (consent_options 365) env"
  by (simp add: tc_setCookie_def setCookie_def consent_options_def no_options_def js_def
      split: sum.splits)

lemma tc_setConsent_eq: "tc_setConsent partial env = setConsent partial None env"
  by (simp add: tc_setConsent_def setConsent_def tc_getConsent_eq tc_setCookie_365
      encodeConsent_def merge_consent_def Let_def split: sum.splits)

section \<open>Reading back what was written\<close>

lemma split_join:
  "list_all (\<lambda>s. ch CHR '';'' \<notin> set s) segs \<Longrightarrow>
     split_on (ch CHR '';'') (join_with (js ''; '') segs) =
       (case segs of [] \<Rightarrow> [[]] | s # ss \<Rightarrow> s # map (\<lambda>x. ch CHR '' '' # x) ss)"
proof (induction segs)
  case Nil
  then show ?case by simp
next
  case (Cons x xs)
  show ?case
  proof (cases xs)
    case Nil
    with Cons.prems show ?thesis by (simp add: split_on_notin)
  next
    case (Cons y ys)
    have ne: "ch CHR '' '' \<noteq> ch CHR '';''" by (simp add: ch_def)
    from Cons.IH Cons.prems Cons have "split_on (ch CHR '';'') (join_with (js ''; '') (y # ys))
        = y # map (\<lambda>x. ch CHR '' '' # x) ys" by simp
    then have "split_on (ch CHR '';'') (ch CHR '' '' # join_with (js ''; '') (y # ys))
        = (ch CHR '' '' # y) # map (\<lambda>x. ch CHR '' '' # x) ys"
      using ne by simp
    moreover have "join_with (js ''; '') (x # y # ys)
        = x @ ch CHR '';'' # (ch CHR '' '' # join_with (js ''; '') (y # ys))"
      by (simp add: js_def)
    ultimately show ?thesis
      using Cons.prems Cons by (simp add: split_on_append del: join_with.simps)
  qed
qed

lemma trim_space_cons: "trim (ch CHR '' '' # s) = trim s"
  by (simp add: trim_def is_space_def ch_def)

lemma find_cookie_trim:
  "map trim ps = map trim qs \<Longrightarrow> find_cookie t ps = find_cookie t qs"
proof (induction ps arbitrary: qs)
  case Nil
  then show ?case by simp
next
  case (Cons p ps)
  then obtain q qs' where q: "qs = q # qs'" "trim p = trim q" "map trim ps = map trim qs'"
    by (cases qs) auto
  with Cons.IH [of qs'] show ?case by (simp add: Let_def)
qed

lemma find_cookie_cookie_text:
  assumes "list_all (\<lambda>s. ch CHR '';'' \<notin> set s) (map render_pair jar)"
  shows "find_cookie t (split_on (ch CHR '';'') (cookie_text jar)) =
    (if jar = [] then find_cookie t [[]] else find_cookie t (map render_pair jar))"
proof (cases jar)
  case Nil
  then show ?thesis by (simp add: cookie_text_def)
next
  case (Cons p ps)
  have "map trim (render_pair p # map (\<lambda>x. ch CHR '' '' # x) (map render_pair ps))
      = map trim (render_pair p # map render_pair ps)"
    by (simp add: trim_space_cons)
  then show ?thesis
    using assms Cons split_join [of "map render_pair jar"]
    by (simp add: cookie_text_def find_cookie_trim del: find_cookie.simps)
qed

lemma set_trim: "set (trim s) \<subseteq> set s"
proof -
  have "set (trim s) = set (dropWhile is_space (rev (dropWhile is_space s)))" by (simp add: trim_def)
  also have "\<dots> \<subseteq> set (rev (dropWhile is_space s))" by (auto dest: set_dropWhileD)
  also have "\<dots> \<subseteq> set s" by (auto dest: set_dropWhileD)
  finally show ?thesis .
qed

lemma trim_named:
  assumes "n \<noteq> []" "\<not> is_space (hd n)"
  shows "\<exists>w. trim (n @ ch CHR ''='' # v) = n @ ch CHR ''='' # w"
proof -
  have e: "\<not> is_space (ch CHR ''='')" by (simp add: is_space_def ch_def)
  obtain a as where n: "n = a # as" using assms(1) by (cases n) auto
  with assms(2) have 1: "dropWhile is_space (n @ ch CHR ''='' # v) = n @ ch CHR ''='' # v" by simp
  have "dropWhile is_space (rev v @ ch CHR ''='' # rev n)
      = dropWhile is_space (rev v) @ ch CHR ''='' # rev n"
    using e by (simp add: dropWhile_append)
  then have "trim (n @ ch CHR ''='' # v) = n @ ch CHR ''='' # rev (dropWhile is_space (rev v))"
    using 1 by (simp add: trim_def)
  then show ?thesis by blast
qed

lemma same_name:
  assumes "c \<notin> set n" "c \<notin> set n'" "take (length n + 1) (n' @ c # w) = n @ [c]"
  shows "n' = n"
  using assms
proof (induction n arbitrary: n')
  case Nil
  then show ?case by (cases n') auto
next
  case (Cons a n)
  then show ?case by (cases n') auto
qed

lemma render_pair_no_semicolon: "wf_pair p \<Longrightarrow> ch CHR '';'' \<notin> set (render_pair p)"
  by (auto simp: wf_pair_def render_pair_def js_def ch_def split: if_splits)

lemma other_name_no_match:
  assumes "wf_pair p" "fst p \<noteq> n" "ch CHR ''='' \<notin> set n"
  shows "\<not> startsWith (trim (render_pair p)) (n @ js ''='')"
proof
  assume "startsWith (trim (render_pair p)) (n @ js ''='')"
  then have t: "take (length n + 1) (trim (render_pair p)) = n @ [ch CHR ''='']"
    by (simp add: startsWith_def js_def)
  show False
  proof (cases "fst p = []")
    case True
    then have "ch CHR ''='' \<notin> set (trim (render_pair p))"
      using assms(1) set_trim [of "snd p"] by (auto simp: wf_pair_def render_pair_def)
    moreover have "ch CHR ''='' \<in> set (take (length n + 1) (trim (render_pair p)))"
      using t by simp
    ultimately show False by (meson in_set_takeD)
  next
    case False
    then have "\<not> is_space (hd (fst p))" "ch CHR ''='' \<notin> set (fst p)"
      using assms(1) by (simp_all add: wf_pair_def)
    then obtain w where "trim (fst p @ ch CHR ''='' # snd p) = fst p @ ch CHR ''='' # w"
      using trim_named [OF False] by blast
    then have "take (length n + 1) (fst p @ ch CHR ''='' # w) = n @ [ch CHR ''='']"
      using t False by (simp add: render_pair_def js_def)
    then have "fst p = n"
      using same_name [OF assms(3) \<open>ch CHR ''='' \<notin> set (fst p)\<close>] by blast
    with assms(2) show False by simp
  qed
qed

lemma own_name_match:
  assumes "n \<noteq> []" "\<forall>x \<in> set n. uri_unreserved x \<or> x = 0x25"
    "\<forall>x \<in> set v. uri_unreserved x \<or> x = 0x25"
  shows "trim (render_pair (n, v)) = n @ js ''='' @ v"
proof -
  have "\<not> is_space (hd n)" using assms(1,2) encoded_char [of "hd n"] by simp
  moreover have "\<not> is_space (last (n @ js ''='' @ v))"
  proof (cases v)
    case Nil
    then show ?thesis by (simp add: js_def is_space_def ch_def)
  next
    case (Cons a as)
    then have "last v \<in> set v" by simp
    then show ?thesis using assms(3) encoded_char [of "last v"] Cons by (simp add: js_def)
  qed
  ultimately show ?thesis
    using assms(1) by (simp add: render_pair_def trim_id)
qed

lemma find_in_jar:
  assumes "wf_jar J" "n \<noteq> []" "\<forall>x \<in> set n. uri_unreserved x \<or> x = 0x25"
    "\<forall>x \<in> set v. uri_unreserved x \<or> x = 0x25"
    "\<forall>p \<in> set J. fst p = n \<longrightarrow> p = (n, v)" "(n, v) \<in> set J"
  shows "find_cookie (n @ js ''='') (map render_pair J) =
    (case decodeURIComponent v of Inl e \<Rightarrow> Inl e | Inr s \<Rightarrow> Inr (JStr s))"
  using assms(1,5,6)
proof (induction J)
  case Nil
  then show ?case by simp
next
  case (Cons p J)
  have eq: "ch CHR ''='' \<notin> set n" using assms(3) encoded_char by blast
  show ?case
  proof (cases "fst p = n")
    case True
    then have p: "p = (n, v)" using Cons.prems(2) by simp
    have t: "trim (render_pair p) = n @ js ''='' @ v"
      unfolding p using own_name_match [OF assms(2,3,4)] .
    have "startsWith (n @ js ''='' @ v) (n @ js ''='')" by (simp add: startsWith_def)
    moreover have "drop (length (n @ js ''='')) (n @ js ''='' @ v) = v" by simp
    ultimately show ?thesis
      unfolding list.map find_cookie.simps Let_def t by (simp only: if_True)
  next
    case False
    then have nm: "\<not> startsWith (trim (render_pair p)) (n @ js ''='')"
      using other_name_no_match [of p n] Cons.prems(1) eq by (simp add: wf_jar_def)
    have "(n, v) \<in> set J" using Cons.prems(3) False by auto
    moreover have "wf_jar J" using Cons.prems(1) by (simp add: wf_jar_def)
    moreover have "\<forall>p \<in> set J. fst p = n \<longrightarrow> p = (n, v)" using Cons.prems(2) by simp
    ultimately have "find_cookie (n @ js ''='') (map render_pair J) =
        (case decodeURIComponent v of Inl e \<Rightarrow> Inl e | Inr s \<Rightarrow> Inr (JStr s))"
      using Cons.IH by blast
    then show ?thesis
      unfolding list.map find_cookie.simps Let_def using nm by (simp only: if_False)
  qed
qed

lemma takeWhile_stop: "\<forall>x \<in> set xs. P x \<Longrightarrow> \<not> P y \<Longrightarrow> takeWhile P (xs @ y # ys) = xs"
  by (induction xs) auto

lemma dropWhile_stop: "\<forall>x \<in> set xs. P x \<Longrightarrow> \<not> P y \<Longrightarrow> dropWhile P (xs @ y # ys) = y # ys"
  by (induction xs) auto

lemma cookie_pair_text:
  assumes "ch CHR '';'' \<notin> set n" "ch CHR '';'' \<notin> set v" "ch CHR ''='' \<notin> set n"
  shows "cookie_pair (n @ js ''='' @ v @ ch CHR '';'' # rest) = (n, v)"
proof -
  have ne: "ch CHR ''='' \<noteq> ch CHR '';''" by (simp add: ch_def)
  have "\<forall>x \<in> set (n @ ch CHR ''='' # v). x \<noteq> ch CHR '';''"
    using assms ne by auto
  then have "takeWhile (\<lambda>c. c \<noteq> ch CHR '';'') ((n @ ch CHR ''='' # v) @ ch CHR '';'' # rest)
      = n @ ch CHR ''='' # v"
    by (intro takeWhile_stop) simp_all
  then have 1: "takeWhile (\<lambda>c. c \<noteq> ch CHR '';'') (n @ js ''='' @ v @ ch CHR '';'' # rest)
      = n @ ch CHR ''='' # v"
    by (simp add: js_def)
  have 2: "takeWhile (\<lambda>c. c \<noteq> ch CHR ''='') (n @ ch CHR ''='' # v) = n"
    using assms(3) by (intro takeWhile_stop) auto
  have 3: "dropWhile (\<lambda>c. c \<noteq> ch CHR ''='') (n @ ch CHR ''='' # v) = ch CHR ''='' # v"
    using assms(3) by (intro dropWhile_stop) auto
  show ?thesis
    unfolding cookie_pair_def 1 by (simp add: name_value_def 2 3)
qed

lemma store_cookie_kept:
  assumes "cookie_pair text = (n, v)" "\<not> (case expiry of None \<Rightarrow> False | Some t \<Rightarrow> t \<le> now)"
    "wf_jar jar" "wf_pair (n, v)"
  shows "wf_jar (store_cookie text expiry now jar)"
    and "\<forall>p \<in> set (store_cookie text expiry now jar). fst p = n \<longrightarrow> p = (n, v)"
    and "(n, v) \<in> set (store_cookie text expiry now jar)"
proof -
  have s: "store_cookie text expiry now jar =
      (if n \<in> fst ` set jar then map (\<lambda>p. if fst p = n then (n, v) else p) jar else jar @ [(n, v)])"
    using assms(1,2) by (simp add: store_cookie_def)
  show "wf_jar (store_cookie text expiry now jar)"
    unfolding s using assms(3,4) by (auto simp: wf_jar_def list_all_iff)
  show "\<forall>p \<in> set (store_cookie text expiry now jar). fst p = n \<longrightarrow> p = (n, v)"
    unfolding s by auto
  show "(n, v) \<in> set (store_cookie text expiry now jar)"
    unfolding s by (auto simp: image_iff)
qed


lemma future_expiry:
  assumes "0 < ttl"
  shows "\<not> (case expires_instant (Some (Date_setTime (now + ttl * 86400000))) of
              None \<Rightarrow> False | Some t \<Rightarrow> t \<le> now)"
proof (cases "\<bar>now + ttl * 86400000\<bar> \<le> 8640000000000000")
  case False
  then show ?thesis by (simp add: Date_setTime_def)
next
  case True
  have "now + 86400000 \<le> now + ttl * 86400000" using assms by simp
  moreover have "(now + ttl * 86400000) div 1000 * 1000 > now + ttl * 86400000 - 1000"
    using div_mult_mod_eq [of "now + ttl * 86400000" 1000]
      pos_mod_bound [of 1000 "now + ttl * 86400000"] by linarith
  ultimately have "now < (now + ttl * 86400000) div 1000 * 1000" by linarith
  with True show ?thesis by (simp add: Date_setTime_def)
qed

lemma encoded_wf_pair:
  assumes "n \<noteq> []" "\<forall>x \<in> set n. uri_unreserved x \<or> x = 0x25"
    "\<forall>x \<in> set v. uri_unreserved x \<or> x = 0x25"
  shows "wf_pair (n, v)"
proof -
  have "hd n \<in> set n" using assms(1) by simp
  then show ?thesis using assms encoded_char by (auto simp: wf_pair_def)
qed

text \<open>Reading a cookie back after \<open>setCookie\<close> has written it with a future expiry.\<close>

lemma getCookie_after_setCookie:
  assumes "cookies env = Some jar" "wf_jar jar" "name \<noteq> []" "\<forall>c \<in> set name. c < 0x80"
    "\<forall>c \<in> set (String_of value). c < 0x80" "0 < ttl"
    "setCookie name value (consent_options ttl) env = Inr env1"
  shows "getCookie name env1 = Inr (JStr (String_of value), env1\<lparr>trace := trace env1 @ [CookieRead name]\<rparr>)"
    and "\<exists>jar1. cookies env1 = Some jar1 \<and> wf_jar jar1"
proof -
  define n where "n = concat (map (\<lambda>c. if uri_unreserved c then [c] else pct (unat c)) name)"
  define v where "v = concat (map (\<lambda>c. if uri_unreserved c then [c] else pct (unat c)) (String_of value))"
  have en: "encodeURIComponent name = Inr n" and ev: "encodeURIComponent (String_of value) = Inr v"
    using assms(4,5) by (simp_all add: n_def v_def encode_ascii)
  have cn: "\<forall>x \<in> set n. uri_unreserved x \<or> x = 0x25" and cv: "\<forall>x \<in> set v. uri_unreserved x \<or> x = 0x25"
    using assms(4,5) encode_ascii_chars unfolding n_def v_def by blast+
  have nn: "n \<noteq> []"
  proof -
    obtain a as where "name = a # as" using assms(3) by (cases name) auto
    then show ?thesis by (simp add: n_def pct_def)
  qed
  define line where "line = n @ js ''='' @ v @ js ''; Expires=''
      @ toUTCString (Date_setTime (clock env + ttl * 86400000)) @ js ''; Path=/; SameSite=Lax; Secure''"
  define jar1 where "jar1 = store_cookie line
      (expires_instant (Some (Date_setTime (clock env + ttl * 86400000)))) (clock env) jar"
  have e1: "env1 = env\<lparr>cookies := Some jar1, trace := trace env @ [CookieWrite line]\<rparr>"
    using setCookie_consent_options [OF assms(1) en ev, of ttl] assms(7)
    by (simp add: line_def jar1_def)
  have "line = n @ js ''='' @ v @ ch CHR '';'' # (js '' Expires=''
      @ toUTCString (Date_setTime (clock env + ttl * 86400000)) @ js ''; Path=/; SameSite=Lax; Secure'')"
    by (simp add: line_def js_def)
  moreover have "ch CHR '';'' \<notin> set n" "ch CHR '';'' \<notin> set v" "ch CHR ''='' \<notin> set n"
    using cn cv encoded_char by blast+
  ultimately have cp: "cookie_pair line = (n, v)"
    using cookie_pair_text [of n v] by simp
  have wp: "wf_pair (n, v)" using encoded_wf_pair [OF nn cn cv] .
  note st = store_cookie_kept [OF cp future_expiry [OF assms(6), of "clock env"] assms(2) wp, folded jar1_def]
  show "\<exists>jar1. cookies env1 = Some jar1 \<and> wf_jar jar1" using e1 st(1) by simp
  have ne: "jar1 \<noteq> []" using st(3) by auto
  have "list_all (\<lambda>s. ch CHR '';'' \<notin> set s) (map render_pair jar1)"
    using st(1) by (simp add: wf_jar_def list_all_iff render_pair_no_semicolon)
  then have "find_cookie (n @ js ''='') (split_on (ch CHR '';'') (cookie_text jar1))
      = find_cookie (n @ js ''='') (map render_pair jar1)"
    using ne by (simp add: find_cookie_cookie_text del: find_cookie.simps)
  also have "\<dots> = (case decodeURIComponent v of Inl e \<Rightarrow> Inl e | Inr s \<Rightarrow> Inr (JStr s))"
    using find_in_jar [OF st(1) nn cn cv st(2) st(3)] .
  also have "\<dots> = Inr (JStr (String_of value))"
    using decode_encode_ascii [OF assms(5)] by (simp add: v_def)
  finally show "getCookie name env1 = Inr (JStr (String_of value), env1\<lparr>trace := trace env1 @ [CookieRead name]\<rparr>)"
    using en e1 by (simp add: getCookie_def)
qed

lemma digit_ascii: "is_digit c \<Longrightarrow> c < 0x80"
  by (simp add: is_digit_iff word_less_nat_alt)

lemma Number_toString_ascii: "\<forall>c \<in> set (Number_toString n). c < 0x80"
proof -
  have "\<forall>c \<in> set (show_nat k). c < 0x80" for k
    using show_nat_digits [of k] digit_ascii by (auto simp: list_all_iff)
  then show ?thesis by (auto simp: Number_toString_def ch_def)
qed

lemma encodeConsent_ascii: "\<forall>c \<in> set (encodeConsent now r). c < 0x80"
  using Number_toString_ascii
  by (auto simp: encodeConsent_def Let_def bit01_def js_def ch_def)

lemma CONSENT_COOKIE_ascii: "CONSENT_COOKIE \<noteq> [] \<and> (\<forall>c \<in> set CONSENT_COOKIE. c < 0x80)"
  by (simp add: CONSENT_COOKIE_def js_def ch_def)

lemma decodeConsent_merge:
  "decodeConsent (JStr (encodeConsent now (merge_consent current partial now)))
     = as_decoded (merge_consent current partial now)"
  by (simp add: decodeConsent_encodeConsent merge_consent_def as_decoded_def)

text \<open>What \<open>setConsent\<close> returns and writes when the current record can be read.\<close>

lemma setConsent_result:
  assumes "cookies env = Some jar" "getConsent env = Inr (current, env1)"
  shows "\<exists>enc.
      encodeURIComponent (encodeConsent (clock env) (merge_consent current partial (clock env))) = Inr enc
    \<and> decodeURIComponent enc = Inr (encodeConsent (clock env) (merge_consent current partial (clock env)))
    \<and> ch CHR '';'' \<notin> set enc
    \<and> setConsent partial ttl env =
        Inr (merge_consent current partial (clock env),
          env\<lparr>cookies := Some (store_cookie
                 (js ''t_consent='' @ enc @ js ''; Expires=''
                    @ toUTCString (Date_setTime (clock env
                        + (case ttl of None \<Rightarrow> 365 | Some d \<Rightarrow> d) * 86400000))
                    @ js ''; Path=/; SameSite=Lax; Secure'')
                 (expires_instant (Some (Date_setTime (clock env
                        + (case ttl of None \<Rightarrow> 365 | Some d \<Rightarrow> d) * 86400000))))
                 (clock env) jar),
              trace := trace env @ [CookieRead CONSENT_COOKIE, CookieWrite
                 (js ''t_consent='' @ enc @ js ''; Expires=''
                    @ toUTCString (Date_setTime (clock env
                        + (case ttl of None \<Rightarrow> 365 | Some d \<Rightarrow> d) * 86400000))
                    @ js ''; Path=/; SameSite=Lax; Secure'')]\<rparr>)"
proof -
  define nxt where "nxt = merge_consent current partial (clock env)"
  define enc where "enc = concat (map (\<lambda>c. if uri_unreserved c then [c] else pct (unat c))
      (encodeConsent (clock env) nxt))"
  have e1: "env1 = env\<lparr>trace := trace env @ [CookieRead CONSENT_COOKIE]\<rparr>"
    using getConsent_env [OF assms(2)] .
  have a: "\<forall>c \<in> set (encodeConsent (clock env) nxt). c < 0x80" using encodeConsent_ascii by blast
  have en: "encodeURIComponent (String_of (JStr (encodeConsent (clock env) nxt))) = Inr enc"
    using encode_ascii [OF a] by (simp add: enc_def)
  have de: "decodeURIComponent enc = Inr (encodeConsent (clock env) nxt)"
    using decode_encode_ascii [OF a] by (simp add: enc_def)
  have sc: "ch CHR '';'' \<notin> set enc"
    using encode_ascii_chars [OF a] encoded_char unfolding enc_def by blast
  have c1: "cookies env1 = Some jar" "clock env1 = clock env" using e1 assms(1) by simp_all
  have "setCookie CONSENT_COOKIE (JStr (encodeConsent (clock env) nxt))
      (consent_options (case ttl of None \<Rightarrow> 365 | Some d \<Rightarrow> d)) env1 =
     Inr (env1\<lparr>cookies := Some (store_cookie
            (CONSENT_COOKIE @ js ''='' @ enc @ js ''; Expires='' @ toUTCString (Date_setTime (clock env1 + (case ttl of None \<Rightarrow> 365 | Some d \<Rightarrow> d) * 86400000))
               @ js ''; Path=/; SameSite=Lax; Secure'')
            (expires_instant (Some (Date_setTime (clock env1 + (case ttl of None \<Rightarrow> 365 | Some d \<Rightarrow> d) * 86400000)))) (clock env1) jar),
          trace := trace env1 @ [CookieWrite
            (CONSENT_COOKIE @ js ''='' @ enc @ js ''; Expires='' @ toUTCString (Date_setTime (clock env1 + (case ttl of None \<Rightarrow> 365 | Some d \<Rightarrow> d) * 86400000))
               @ js ''; Path=/; SameSite=Lax; Secure'')]\<rparr>)"
    using setCookie_consent_options [OF c1(1) encode_CONSENT_COOKIE en] .
  note sc' = this
  have r: "setConsent partial ttl env =
      (case setCookie CONSENT_COOKIE (JStr (encodeConsent (clock env) nxt))
              (consent_options (case ttl of None \<Rightarrow> 365 | Some d \<Rightarrow> d)) env1 of
         Inl e \<Rightarrow> Inl e | Inr env2 \<Rightarrow> Inr (nxt, env2))"
    using assms(2) c1(2) by (simp add: setConsent_def nxt_def Let_def split: sum.splits)
  have "setConsent partial ttl env =
        Inr (nxt,
          env\<lparr>cookies := Some (store_cookie
                 (js ''t_consent='' @ enc @ js ''; Expires=''
                    @ toUTCString (Date_setTime (clock env
                        + (case ttl of None \<Rightarrow> 365 | Some d \<Rightarrow> d) * 86400000))
                    @ js ''; Path=/; SameSite=Lax; Secure'')
                 (expires_instant (Some (Date_setTime (clock env
                        + (case ttl of None \<Rightarrow> 365 | Some d \<Rightarrow> d) * 86400000))))
                 (clock env) jar),
              trace := trace env @ [CookieRead CONSENT_COOKIE, CookieWrite
                 (js ''t_consent='' @ enc @ js ''; Expires=''
                    @ toUTCString (Date_setTime (clock env
                        + (case ttl of None \<Rightarrow> 365 | Some d \<Rightarrow> d) * 86400000))
                    @ js ''; Path=/; SameSite=Lax; Secure'')]\<rparr>)"
    unfolding r sc' by (simp add: e1 CONSENT_COOKIE_def js_def)
  with en de sc show ?thesis unfolding nxt_def by auto
qed

lemma getConsent_after_setConsent:
  assumes "cookies env = Some jar" "wf_jar jar" "getConsent env = Inr (current, env1)"
    "0 < (case ttl of None \<Rightarrow> 365 | Some d \<Rightarrow> d)"
    "setConsent partial ttl env = Inr (next, env2)"
  shows "getConsent env2 = Inr (as_decoded next, env2\<lparr>trace := trace env2 @ [CookieRead CONSENT_COOKIE]\<rparr>)"
    and "\<exists>jar2. cookies env2 = Some jar2 \<and> wf_jar jar2"
proof -
  have e1: "env1 = env\<lparr>trace := trace env @ [CookieRead CONSENT_COOKIE]\<rparr>"
    using getConsent_env [OF assms(3)] .
  have c1: "cookies env1 = Some jar" "clock env1 = clock env" using e1 assms(1) by simp_all
  have n: "next = merge_consent current partial (clock env)"
    and s: "setCookie CONSENT_COOKIE (JStr (encodeConsent (clock env) next))
        (consent_options (case ttl of None \<Rightarrow> 365 | Some d \<Rightarrow> d)) env1 = Inr env2"
    using assms(3,5) c1 by (auto simp: setConsent_def Let_def split: sum.splits)
  have a: "\<forall>c \<in> set (String_of (JStr (encodeConsent (clock env) next))). c < 0x80"
    using encodeConsent_ascii by simp
  note g = getCookie_after_setCookie [OF c1(1) assms(2) conjunct1 [OF CONSENT_COOKIE_ascii]
      conjunct2 [OF CONSENT_COOKIE_ascii] a assms(4) s]
  show "\<exists>jar2. cookies env2 = Some jar2 \<and> wf_jar jar2" using g(2) .
  show "getConsent env2 = Inr (as_decoded next, env2\<lparr>trace := trace env2 @ [CookieRead CONSENT_COOKIE]\<rparr>)"
    using g(1) n by (simp add: getConsent_def decodeConsent_merge)
qed

lemma setConsent_set:
  assumes "cookies env = Some jar" "getConsent env = Inr (current, env1)" "0 < clock env"
  shows "\<exists>nxt env2 line v s.
      setConsent partial ttl env = Inr (nxt, env2) \<and> 0 < ts nxt
    \<and> trace env2 = trace env @ [CookieRead CONSENT_COOKIE, CookieWrite line]
    \<and> cookie_pair line = (CONSENT_COOKIE, v) \<and> decodeURIComponent v = Inr s
    \<and> positive (ts (decodeConsent (JStr s)))
    \<and> (wf_jar jar \<and> 0 < (case ttl of None \<Rightarrow> 365 | Some d \<Rightarrow> d) \<longrightarrow> consent_set env2)"
proof -
  define nxt where "nxt = merge_consent current partial (clock env)"
  define days where "days = (case ttl of None \<Rightarrow> 365 | Some d \<Rightarrow> d)"
  obtain enc where de: "decodeURIComponent enc = Inr (encodeConsent (clock env) nxt)"
    and sc: "ch CHR '';'' \<notin> set enc"
    and res: "setConsent partial ttl env =
        Inr (nxt,
          env\<lparr>cookies := Some (store_cookie
                 (js ''t_consent='' @ enc @ js ''; Expires=''
                    @ toUTCString (Date_setTime (clock env + days * 86400000))
                    @ js ''; Path=/; SameSite=Lax; Secure'')
                 (expires_instant (Some (Date_setTime (clock env + days * 86400000))))
                 (clock env) jar),
              trace := trace env @ [CookieRead CONSENT_COOKIE, CookieWrite
                 (js ''t_consent='' @ enc @ js ''; Expires=''
                    @ toUTCString (Date_setTime (clock env + days * 86400000))
                    @ js ''; Path=/; SameSite=Lax; Secure'')]\<rparr>)"
    using setConsent_result [OF assms(1,2), of partial ttl] unfolding nxt_def days_def by blast
  define line where "line = js ''t_consent='' @ enc @ js ''; Expires=''
      @ toUTCString (Date_setTime (clock env + days * 86400000)) @ js ''; Path=/; SameSite=Lax; Secure''"
  define env2 where "env2 = env\<lparr>cookies := Some (store_cookie line
      (expires_instant (Some (Date_setTime (clock env + days * 86400000)))) (clock env) jar),
      trace := trace env @ [CookieRead CONSENT_COOKIE, CookieWrite line]\<rparr>"
  have r: "setConsent partial ttl env = Inr (nxt, env2)"
    using res by (simp add: env2_def line_def)
  have t: "0 < ts nxt" using assms(3) by (simp add: nxt_def merge_consent_def)
  have "line = CONSENT_COOKIE @ js ''='' @ enc @ ch CHR '';'' # (js '' Expires=''
      @ toUTCString (Date_setTime (clock env + days * 86400000)) @ js ''; Path=/; SameSite=Lax; Secure'')"
    by (simp add: line_def CONSENT_COOKIE_def js_def)
  moreover have "ch CHR '';'' \<notin> set CONSENT_COOKIE" "ch CHR ''='' \<notin> set CONSENT_COOKIE"
    by (simp_all add: CONSENT_COOKIE_def js_def ch_def)
  ultimately have cp: "cookie_pair line = (CONSENT_COOKIE, enc)"
    using cookie_pair_text [of CONSENT_COOKIE enc] sc by simp
  have "decodeConsent (JStr (encodeConsent (clock env) nxt)) = as_decoded nxt"
    unfolding nxt_def by (rule decodeConsent_merge)
  then have p: "positive (ts (decodeConsent (JStr (encodeConsent (clock env) nxt))))"
    using t by (simp add: as_decoded_def positive_def)
  have s: "consent_set env2" if "wf_jar jar \<and> 0 < days"
  proof -
    have "getConsent env2 = Inr (as_decoded nxt, env2\<lparr>trace := trace env2 @ [CookieRead CONSENT_COOKIE]\<rparr>)"
      using getConsent_after_setConsent(1) [OF assms(1) _ assms(2) _ r] that
      unfolding days_def by blast
    then show ?thesis using t by (simp add: consent_set_def as_decoded_def positive_def)
  qed
  have "trace env2 = trace env @ [CookieRead CONSENT_COOKIE, CookieWrite line]"
    by (simp add: env2_def)
  with r t cp de p s show ?thesis unfolding days_def by blast
qed

text \<open>Reading the jar after a write, with no assumption on what the jar holds.\<close>

lemma split_on_nonempty: "split_on c xs \<noteq> []"
  by (induction xs) (auto split: list.splits)

lemma split_on_app: "split_on c (xs @ c # ys) = split_on c xs @ split_on c ys"
proof (induction xs)
  case Nil
  then show ?case by simp
next
  case (Cons x xs)
  obtain p ps where s: "split_on c xs = p # ps"
    using split_on_nonempty [of c xs] by (cases "split_on c xs") auto
  with Cons show ?case by simp
qed

lemma find_cookie_append:
  "find_cookie t (A @ B) =
     (if \<exists>p \<in> set A. startsWith (trim p) t then find_cookie t A else find_cookie t B)"
  by (induction A) (simp_all add: Let_def)

lemma find_cookie_no_match:
  "\<not> (\<exists>p \<in> set A. startsWith (trim p) t) \<Longrightarrow> find_cookie t A = Inr JNull"
  by (induction A) (simp_all add: Let_def)

lemma find_cookie_space:
  "find_cookie t (split_on (ch CHR '';'') (ch CHR '' '' # s)) = find_cookie t (split_on (ch CHR '';'') s)"
proof -
  obtain p ps where s: "split_on (ch CHR '';'') s = p # ps"
    using split_on_nonempty [of "ch CHR '';''" s] by (cases "split_on (ch CHR '';'') s") auto
  have ne: "ch CHR '' '' \<noteq> ch CHR '';''" by (simp add: ch_def)
  have "split_on (ch CHR '';'') (ch CHR '' '' # s) = (ch CHR '' '' # p) # ps"
    using s ne by simp
  then show ?thesis
    unfolding s by (simp add: trim_space_cons Let_def)
qed

text \<open>
  The parts \<open>getCookie\<close> walks through are those of the cookies one after the other, with
  no assumption on what the jar holds.
\<close>

lemma find_cookie_parts:
  assumes "t \<noteq> []"
  shows "find_cookie t (split_on (ch CHR '';'') (cookie_text jar))
    = find_cookie t (concat (map (\<lambda>p. split_on (ch CHR '';'') (render_pair p)) jar))"
proof (induction jar rule: induct_list012)
  case 1
  have "\<not> startsWith (trim []) t" using assms by (auto simp: startsWith_def trim_def)
  then show ?case by (simp add: cookie_text_def Let_def)
next
  case (2 x)
  then show ?case by (simp add: cookie_text_def)
next
  case (3 x y zs)
  have "cookie_text (x # y # zs) = render_pair x @ ch CHR '';'' # (ch CHR '' '' # cookie_text (y # zs))"
    by (simp add: cookie_text_def js_def)
  then have "find_cookie t (split_on (ch CHR '';'') (cookie_text (x # y # zs)))
      = find_cookie t (split_on (ch CHR '';'') (render_pair x)
          @ split_on (ch CHR '';'') (ch CHR '' '' # cookie_text (y # zs)))"
    by (simp only: split_on_app)
  also have "\<dots> = find_cookie t (split_on (ch CHR '';'') (render_pair x)
          @ concat (map (\<lambda>p. split_on (ch CHR '';'') (render_pair p)) (y # zs)))"
    unfolding find_cookie_append [of t "split_on (ch CHR '';'') (render_pair x)"]
      find_cookie_space 3(2) ..
  finally show ?case by simp
qed

lemma fresh_pair_parts:
  assumes "n \<noteq> []" "\<forall>x \<in> set n. uri_unreserved x \<or> x = 0x25"
    "\<forall>x \<in> set v. uri_unreserved x \<or> x = 0x25"
  shows "find_cookie (n @ js ''='') (split_on (ch CHR '';'') (render_pair (n, v)) @ rest)
    = (case decodeURIComponent v of Inl e \<Rightarrow> Inl e | Inr s \<Rightarrow> Inr (JStr s))"
proof -
  have "ch CHR '';'' \<notin> set (render_pair (n, v))"
    using assms encoded_char by (auto simp: render_pair_def js_def ch_def)
  then have s: "split_on (ch CHR '';'') (render_pair (n, v)) = [render_pair (n, v)]"
    by (rule split_on_notin)
  have t: "trim (render_pair (n, v)) = n @ js ''='' @ v"
    using own_name_match [OF assms] .
  have "startsWith (n @ js ''='' @ v) (n @ js ''='')" by (simp add: startsWith_def)
  moreover have "drop (length (n @ js ''='')) (n @ js ''='' @ v) = v" by simp
  ultimately show ?thesis
    unfolding s append.simps find_cookie.simps Let_def t by (simp only: if_True)
qed

text \<open>
  A cookie stored with an expiry ahead, whose value decodes to a record with a positive
  timestamp, leaves a jar in which the first match decodes to such a record, when the
  first match did so before: it is the cookie just stored, or the one that was read before.
\<close>

lemma find_after_store:
  assumes "n \<noteq> []" "\<forall>x \<in> set n. uri_unreserved x \<or> x = 0x25"
    "\<forall>x \<in> set v. uri_unreserved x \<or> x = 0x25"
    "decodeURIComponent v = Inr s" "positive (ts (decodeConsent (JStr s)))"
    "cookie_pair line = (n, v)" "\<not> (case expiry of None \<Rightarrow> False | Some t \<Rightarrow> t \<le> now)"
    "find_cookie (n @ js ''='') (split_on (ch CHR '';'') (cookie_text jar)) = Inr u"
    "positive (ts (decodeConsent u))"
  shows "\<exists>u'. find_cookie (n @ js ''='') (split_on (ch CHR '';'') (cookie_text (store_cookie line expiry now jar)))
        = Inr u' \<and> positive (ts (decodeConsent u'))"
proof -
  define T where "T = n @ js ''=''"
  define L where "L = (\<lambda>jar. concat (map (\<lambda>p. split_on (ch CHR '';'') (render_pair p)) jar))"
  define good where "good = (\<lambda>r :: error + jsval. \<exists>u'. r = Inr u' \<and> positive (ts (decodeConsent u')))"
  have Tn: "T \<noteq> []" by (simp add: T_def js_def)
  have nsp: "\<not> is_space (hd n)" "ch CHR '';'' \<notin> set n"
    using assms(1,2) encoded_char [of "hd n"] encoded_char by auto
  have fresh: "good (find_cookie T (split_on (ch CHR '';'') (render_pair (n, v)) @ rest))" for rest
    using fresh_pair_parts [OF assms(1,2,3), of rest] assms(4,5) by (simp add: good_def T_def)
  have nogood: "\<not> good (Inr JNull)"
    by (simp add: good_def decodeConsent_def DEFAULT_CONSENT_def positive_def)
  have rep: "good (find_cookie T (L J)) \<Longrightarrow>
      good (find_cookie T (L (map (\<lambda>p. if fst p = n then (n, v) else p) J)))" for J
  proof (induction J)
    case Nil
    then show ?case by (simp add: L_def)
  next
    case (Cons p J)
    show ?case
    proof (cases "fst p = n")
      case True
      then show ?thesis using fresh by (simp add: L_def)
    next
      case False
      have l1: "L (p # J) = split_on (ch CHR '';'') (render_pair p) @ L J" by (simp add: L_def)
      have l2: "L (map (\<lambda>p. if fst p = n then (n, v) else p) (p # J))
          = split_on (ch CHR '';'') (render_pair p) @ L (map (\<lambda>p. if fst p = n then (n, v) else p) J)"
        using False by (simp add: L_def)
      show ?thesis
      proof (cases "\<exists>q \<in> set (split_on (ch CHR '';'') (render_pair p)). startsWith (trim q) T")
        case True
        then show ?thesis using Cons.prems unfolding l1 l2 find_cookie_append by simp
      next
        case False
        then show ?thesis using Cons.prems Cons.IH unfolding l1 l2 find_cookie_append by simp
      qed
    qed
  qed
  have app: "good (find_cookie T (L J)) \<Longrightarrow> good (find_cookie T (L (J @ [(n, v)])))" for J
  proof -
    assume g: "good (find_cookie T (L J))"
    have "\<exists>q \<in> set (L J). startsWith (trim q) T"
    proof (rule ccontr)
      assume "\<not> (\<exists>q \<in> set (L J). startsWith (trim q) T)"
      then have "find_cookie T (L J) = Inr JNull" by (rule find_cookie_no_match)
      with g nogood show False by simp
    qed
    moreover have "L (J @ [(n, v)]) = L J @ split_on (ch CHR '';'') (render_pair (n, v))"
      by (simp add: L_def)
    ultimately show ?thesis using g by (simp add: find_cookie_append)
  qed
  have st: "store_cookie line expiry now jar =
      (if n \<in> fst ` set jar then map (\<lambda>p. if fst p = n then (n, v) else p) jar else jar @ [(n, v)])"
    using assms(6,7) by (simp add: store_cookie_def)
  have fp: "find_cookie (n @ js ''='') (concat (map (\<lambda>p. split_on (ch CHR '';'') (render_pair p)) J))
      = find_cookie (n @ js ''='') (split_on (ch CHR '';'') (cookie_text J))" for J
    using find_cookie_parts [OF Tn, of J] unfolding T_def by simp
  have "find_cookie T (L jar) = Inr u"
    unfolding T_def L_def fp by (rule assms(8))
  then have "good (find_cookie T (L jar))"
    using assms(9) by (simp add: good_def)
  then have "good (find_cookie T (L (store_cookie line expiry now jar)))"
    unfolding st using rep app by simp
  then show ?thesis
    unfolding good_def T_def L_def fp .
qed

lemma setConsent_stays_set:
  assumes "cookies env = Some jar" "consent_set env" "0 < clock env"
    "0 < (case ttl of None \<Rightarrow> 365 | Some d \<Rightarrow> d)"
    "setConsent partial ttl env = Inr (nxt, env2)"
  shows "consent_set env2"
proof -
  define days where "days = (case ttl of None \<Rightarrow> 365 | Some d \<Rightarrow> d)"
  obtain current env1 where g: "getConsent env = Inr (current, env1)" and pc: "positive (ts current)"
    using assms(2) by (auto simp: consent_set_def split: sum.splits)
  obtain u where f: "find_cookie (CONSENT_COOKIE @ js ''='') (split_on (ch CHR '';'') (cookie_text jar)) = Inr u"
    and cu: "current = decodeConsent u"
    using g assms(1)
    by (auto simp: getConsent_def getCookie_def encode_CONSENT_COOKIE split: sum.splits)
  define rec where "rec = merge_consent current partial (clock env)"
  obtain enc where en: "encodeURIComponent (encodeConsent (clock env) rec) = Inr enc"
    and de: "decodeURIComponent enc = Inr (encodeConsent (clock env) rec)"
    and sc: "ch CHR '';'' \<notin> set enc"
    and res: "setConsent partial ttl env =
        Inr (rec,
          env\<lparr>cookies := Some (store_cookie
                 (js ''t_consent='' @ enc @ js ''; Expires=''
                    @ toUTCString (Date_setTime (clock env + days * 86400000))
                    @ js ''; Path=/; SameSite=Lax; Secure'')
                 (expires_instant (Some (Date_setTime (clock env + days * 86400000))))
                 (clock env) jar),
              trace := trace env @ [CookieRead CONSENT_COOKIE, CookieWrite
                 (js ''t_consent='' @ enc @ js ''; Expires=''
                    @ toUTCString (Date_setTime (clock env + days * 86400000))
                    @ js ''; Path=/; SameSite=Lax; Secure'')]\<rparr>)"
    using setConsent_result [OF assms(1) g, of partial ttl] unfolding rec_def days_def by blast
  define line where "line = js ''t_consent='' @ enc @ js ''; Expires=''
      @ toUTCString (Date_setTime (clock env + days * 86400000)) @ js ''; Path=/; SameSite=Lax; Secure''"
  define jar2 where "jar2 = store_cookie line
      (expires_instant (Some (Date_setTime (clock env + days * 86400000)))) (clock env) jar"
  have e2: "env2 = env\<lparr>cookies := Some jar2,
      trace := trace env @ [CookieRead CONSENT_COOKIE, CookieWrite line]\<rparr>"
    using res assms(5) by (simp add: jar2_def line_def)
  have a: "\<forall>c \<in> set (encodeConsent (clock env) rec). c < 0x80" using encodeConsent_ascii by blast
  have "enc = concat (map (\<lambda>c. if uri_unreserved c then [c] else pct (unat c)) (encodeConsent (clock env) rec))"
    using en encode_ascii [OF a] by simp
  then have ce: "\<forall>x \<in> set enc. uri_unreserved x \<or> x = 0x25"
    using encode_ascii_chars [OF a] by simp
  have "CONSENT_COOKIE = concat (map (\<lambda>c. if uri_unreserved c then [c] else pct (unat c)) CONSENT_COOKIE)"
    using encode_CONSENT_COOKIE encode_ascii [OF conjunct2 [OF CONSENT_COOKIE_ascii]] by simp
  then have cn: "\<forall>x \<in> set CONSENT_COOKIE. uri_unreserved x \<or> x = 0x25"
    using encode_ascii_chars [OF conjunct2 [OF CONSENT_COOKIE_ascii]] by simp
  have "line = CONSENT_COOKIE @ js ''='' @ enc @ ch CHR '';'' # (js '' Expires=''
      @ toUTCString (Date_setTime (clock env + days * 86400000)) @ js ''; Path=/; SameSite=Lax; Secure'')"
    by (simp add: line_def CONSENT_COOKIE_def js_def)
  moreover have "ch CHR '';'' \<notin> set CONSENT_COOKIE" "ch CHR ''='' \<notin> set CONSENT_COOKIE"
    by (simp_all add: CONSENT_COOKIE_def js_def ch_def)
  ultimately have cp: "cookie_pair line = (CONSENT_COOKIE, enc)"
    using cookie_pair_text [of CONSENT_COOKIE enc] sc by simp
  have "decodeConsent (JStr (encodeConsent (clock env) rec)) = as_decoded rec"
    unfolding rec_def by (rule decodeConsent_merge)
  then have p: "positive (ts (decodeConsent (JStr (encodeConsent (clock env) rec))))"
    using assms(3) by (simp add: rec_def merge_consent_def as_decoded_def positive_def)
  have fut: "\<not> (case expires_instant (Some (Date_setTime (clock env + days * 86400000))) of
              None \<Rightarrow> False | Some t \<Rightarrow> t \<le> clock env)"
    using future_expiry [of days "clock env"] assms(4) unfolding days_def by simp
  obtain u' where f': "find_cookie (CONSENT_COOKIE @ js ''='') (split_on (ch CHR '';'') (cookie_text jar2)) = Inr u'"
    and pu: "positive (ts (decodeConsent u'))"
    using find_after_store [OF conjunct1 [OF CONSENT_COOKIE_ascii] cn ce de p cp fut f] pc cu
    unfolding jar2_def by blast
  show ?thesis
    using f' pu by (simp add: consent_set_def getConsent_def getCookie_def encode_CONSENT_COOKIE e2)
qed

lemma cookie_text_nameless: "cookie_text [([], raw)] = raw"
  by (simp add: cookie_text_def render_pair_def)

section \<open>The claims about the cookie store\<close>

text \<open>
  C2, as the code has it. When the consent record read from the jar has
  \<open>experiments = false\<close> (the stored record says so, or no consent cookie is stored and
  the defaults apply), \<open>assignAB\<close> returns \<open>null\<close>, for every options argument and every
  random draw. It makes one access to the jar, the lookup of the consent cookie by which
  \<open>hasConsent\<close> decides the gate: nothing is written, and the variant cookie \<open>t_ab\<close> is
  not looked up, whatever the jar holds under that name.
\<close>

theorem assignAB_without_consent:
  assumes "getConsent env = Inr (c, env1)" "\<not> experiments c"
  shows "assignAB options r env = Inr (JNull, env\<lparr>trace := trace env @ [CookieRead CONSENT_COOKIE]\<rparr>)"
  using assms getConsent_env [OF assms(1)]
  by (simp add: assignAB_def hasConsent_experiments)

theorem assignAB_without_consent_witness:
  "assignAB \<lparr>variants = Some [js ''A'', js ''B''], ttlDays = Some 7\<rparr> (1 / 2)
      \<lparr>cookies = Some [(js ''t_ab'', js ''B'')], clock = 1700000000000, trace = []\<rparr>
     = Inr (JNull, \<lparr>cookies = Some [(js ''t_ab'', js ''B'')], clock = 1700000000000,
         trace = [CookieRead (js ''t_consent'')]\<rparr>)
   \<and> assignAB \<lparr>variants = None, ttlDays = None\<rparr> (1 / 2)
      \<lparr>cookies = Some [(js ''t_consent'', js ''a%3D1%7Ce%3D0%7Cm%3D0%7Cts%3D1690000000000''),
          (js ''t_ab'', js ''B'')], clock = 1700000000000, trace = []\<rparr>
     = Inr (JNull, \<lparr>cookies = Some [(js ''t_consent'', js ''a%3D1%7Ce%3D0%7Cm%3D0%7Cts%3D1690000000000''),
          (js ''t_ab'', js ''B'')], clock = 1700000000000,
         trace = [CookieRead (js ''t_consent'')]\<rparr>)"
proof -
  have 1: "getConsent \<lparr>cookies = Some [(js ''t_ab'', js ''B'')], clock = 1700000000000, trace = []\<rparr>
     = Inr (DEFAULT_CONSENT, \<lparr>cookies = Some [(js ''t_ab'', js ''B'')], clock = 1700000000000,
         trace = [CookieRead CONSENT_COOKIE]\<rparr>)"
    by (simp add: eval_simps)
  have 2: "getConsent \<lparr>cookies = Some [(js ''t_consent'', js ''a%3D1%7Ce%3D0%7Cm%3D0%7Cts%3D1690000000000''),
          (js ''t_ab'', js ''B'')], clock = 1700000000000, trace = []\<rparr>
     = Inr (\<lparr>analytics = True, experiments = False, marketing = False, ts = Fin 1690000000000\<rparr>,
        \<lparr>cookies = Some [(js ''t_consent'', js ''a%3D1%7Ce%3D0%7Cm%3D0%7Cts%3D1690000000000''),
          (js ''t_ab'', js ''B'')], clock = 1700000000000, trace = [CookieRead CONSENT_COOKIE]\<rparr>)"
    by (simp add: eval_simps)
  show ?thesis
    using assignAB_without_consent [OF 1, of "\<lparr>variants = Some [js ''A'', js ''B''], ttlDays = Some 7\<rparr>" "1 / 2"]
      assignAB_without_consent [OF 2, of "\<lparr>variants = None, ttlDays = None\<rparr>" "1 / 2"]
    by (simp add: DEFAULT_CONSENT_def CONSENT_COOKIE_def)
qed

text \<open>
  C2 as stated fails in its \<open>no cookie read\<close>: the gate reads \<open>document.cookie\<close> to look
  the consent cookie up, here in a jar whose consent record has \<open>experiments = false\<close>.
\<close>

theorem assignAB_reads_consent_counterexample:
  "assignAB \<lparr>variants = Some [js ''A'', js ''B''], ttlDays = None\<rparr> 0
     \<lparr>cookies = Some [(js ''t_consent'', js ''a%3D0%7Ce%3D0%7Cm%3D0%7Cts%3D1700000000000'')],
      clock = 1700000000000, trace = []\<rparr>
   = Inr (JNull,
      \<lparr>cookies = Some [(js ''t_consent'', js ''a%3D0%7Ce%3D0%7Cm%3D0%7Cts%3D1700000000000'')],
       clock = 1700000000000,
       trace = [CookieRead (js ''t_consent'')]\<rparr>)"
  by (simp add: eval_simps)

text \<open>
  C3, as the code has it. \<open>setConsent\<close> first reads the current record with
  \<open>getConsent\<close>. When that read succeeds, it returns the current record with the fields of
  \<open>partial\<close> laid over it and \<open>ts\<close> set to the clock, and it assigns one cookie text:
  the name \<open>t_consent\<close>, the percent-encoded serialization of that record, an expiry
  \<open>ttlDays\<close> days after the clock (365 by default), \<open>Path=/; SameSite=Lax; Secure\<close>. A
  category that \<open>partial\<close> does not have keeps its value. In a well-formed jar and with a
  positive \<open>ttlDays\<close>, \<open>hasConsent\<close> then answers with the fields of the returned record.
\<close>

theorem setConsent_merges:
  assumes "cookies env = Some jar" "getConsent env = Inr (current, env1)"
  shows "\<exists>nxt enc line env2.
      nxt = merge_consent current partial (clock env)
    \<and> ts nxt = clock env
    \<and> analytics nxt = (case p_analytics partial of None \<Rightarrow> analytics current | Some b \<Rightarrow> b)
    \<and> experiments nxt = (case p_experiments partial of None \<Rightarrow> experiments current | Some b \<Rightarrow> b)
    \<and> marketing nxt = (case p_marketing partial of None \<Rightarrow> marketing current | Some b \<Rightarrow> b)
    \<and> encodeURIComponent (encodeConsent (clock env) nxt) = Inr enc
    \<and> decodeConsent (JStr (encodeConsent (clock env) nxt)) = as_decoded nxt
    \<and> line = js ''t_consent='' @ enc @ js ''; Expires=''
          @ toUTCString (Date_setTime (clock env + (case ttl of None \<Rightarrow> 365 | Some d \<Rightarrow> d) * 86400000))
          @ js ''; Path=/; SameSite=Lax; Secure''
    \<and> env2 = env\<lparr>cookies := Some (store_cookie line
                 (expires_instant (Some (Date_setTime (clock env
                     + (case ttl of None \<Rightarrow> 365 | Some d \<Rightarrow> d) * 86400000))))
                 (clock env) jar),
              trace := trace env @ [CookieRead CONSENT_COOKIE, CookieWrite line]\<rparr>
    \<and> setConsent partial ttl env = Inr (nxt, env2)
    \<and> (wf_jar jar \<and> 0 < (case ttl of None \<Rightarrow> 365 | Some d \<Rightarrow> d) \<longrightarrow>
          hasConsent (js ''analytics'') env2
            = Inr (analytics nxt, env2\<lparr>trace := trace env2 @ [CookieRead CONSENT_COOKIE]\<rparr>)
        \<and> hasConsent (js ''experiments'') env2
            = Inr (experiments nxt, env2\<lparr>trace := trace env2 @ [CookieRead CONSENT_COOKIE]\<rparr>)
        \<and> hasConsent (js ''marketing'') env2
            = Inr (marketing nxt, env2\<lparr>trace := trace env2 @ [CookieRead CONSENT_COOKIE]\<rparr>))"
proof -
  define nxt where "nxt = merge_consent current partial (clock env)"
  obtain enc where enc: "encodeURIComponent (encodeConsent (clock env) nxt) = Inr enc"
    and res: "setConsent partial ttl env =
        Inr (nxt,
          env\<lparr>cookies := Some (store_cookie
                 (js ''t_consent='' @ enc @ js ''; Expires=''
                    @ toUTCString (Date_setTime (clock env
                        + (case ttl of None \<Rightarrow> 365 | Some d \<Rightarrow> d) * 86400000))
                    @ js ''; Path=/; SameSite=Lax; Secure'')
                 (expires_instant (Some (Date_setTime (clock env
                        + (case ttl of None \<Rightarrow> 365 | Some d \<Rightarrow> d) * 86400000))))
                 (clock env) jar),
              trace := trace env @ [CookieRead CONSENT_COOKIE, CookieWrite
                 (js ''t_consent='' @ enc @ js ''; Expires=''
                    @ toUTCString (Date_setTime (clock env
                        + (case ttl of None \<Rightarrow> 365 | Some d \<Rightarrow> d) * 86400000))
                    @ js ''; Path=/; SameSite=Lax; Secure'')]\<rparr>)"
    using setConsent_result [OF assms, of partial ttl] unfolding nxt_def by blast
  define line where "line = js ''t_consent='' @ enc @ js ''; Expires=''
          @ toUTCString (Date_setTime (clock env + (case ttl of None \<Rightarrow> 365 | Some d \<Rightarrow> d) * 86400000))
          @ js ''; Path=/; SameSite=Lax; Secure''"
  define env2 where "env2 = env\<lparr>cookies := Some (store_cookie line
                 (expires_instant (Some (Date_setTime (clock env
                     + (case ttl of None \<Rightarrow> 365 | Some d \<Rightarrow> d) * 86400000))))
                 (clock env) jar),
              trace := trace env @ [CookieRead CONSENT_COOKIE, CookieWrite line]\<rparr>"
  have r: "setConsent partial ttl env = Inr (nxt, env2)"
    using res by (simp add: env2_def line_def)
  have f: "ts nxt = clock env"
    "analytics nxt = (case p_analytics partial of None \<Rightarrow> analytics current | Some b \<Rightarrow> b)"
    "experiments nxt = (case p_experiments partial of None \<Rightarrow> experiments current | Some b \<Rightarrow> b)"
    "marketing nxt = (case p_marketing partial of None \<Rightarrow> marketing current | Some b \<Rightarrow> b)"
    by (simp_all add: nxt_def merge_consent_def)
  have d: "decodeConsent (JStr (encodeConsent (clock env) nxt)) = as_decoded nxt"
    unfolding nxt_def by (rule decodeConsent_merge)
  have h: "hasConsent (js ''analytics'') env2
            = Inr (analytics nxt, env2\<lparr>trace := trace env2 @ [CookieRead CONSENT_COOKIE]\<rparr>)
        \<and> hasConsent (js ''experiments'') env2
            = Inr (experiments nxt, env2\<lparr>trace := trace env2 @ [CookieRead CONSENT_COOKIE]\<rparr>)
        \<and> hasConsent (js ''marketing'') env2
            = Inr (marketing nxt, env2\<lparr>trace := trace env2 @ [CookieRead CONSENT_COOKIE]\<rparr>)"
    if "wf_jar jar \<and> 0 < (case ttl of None \<Rightarrow> 365 | Some d \<Rightarrow> d)"
  proof -
    have "getConsent env2 = Inr (as_decoded nxt, env2\<lparr>trace := trace env2 @ [CookieRead CONSENT_COOKIE]\<rparr>)"
      using getConsent_after_setConsent(1) [OF assms(1) _ assms(2) _ r] that by blast
    from hasConsent_of_getConsent [OF this] show ?thesis by (simp add: as_decoded_def)
  qed
  show ?thesis
    using f enc d r h line_def env2_def nxt_def by blast
qed

theorem setConsent_merges_witness:
  "setConsent \<lparr>p_analytics = Some True, p_experiments = None, p_marketing = None, p_ts = None\<rparr> None
     \<lparr>cookies = Some [(js ''t_consent'', js ''a%3D0%7Ce%3D1%7Cm%3D0%7Cts%3D1690000000000'')],
      clock = 1700000000000, trace = []\<rparr>
   = Inr (\<lparr>analytics = True, experiments = True, marketing = False, ts = 1700000000000\<rparr>,
      \<lparr>cookies = Some [(js ''t_consent'', js ''a%3D1%7Ce%3D1%7Cm%3D0%7Cts%3D1700000000000'')],
       clock = 1700000000000,
       trace = [CookieRead (js ''t_consent''),
         CookieWrite (js ''t_consent=a%3D1%7Ce%3D1%7Cm%3D0%7Cts%3D1700000000000; Expires=Wed, 13 Nov 2024 22:13:20 GMT; Path=/; SameSite=Lax; Secure'')]\<rparr>)
   \<and> hasConsent (js ''analytics'')
      \<lparr>cookies = Some [(js ''t_consent'', js ''a%3D1%7Ce%3D1%7Cm%3D0%7Cts%3D1700000000000'')],
       clock = 1700000000000,
       trace = [CookieRead (js ''t_consent''),
         CookieWrite (js ''t_consent=a%3D1%7Ce%3D1%7Cm%3D0%7Cts%3D1700000000000; Expires=Wed, 13 Nov 2024 22:13:20 GMT; Path=/; SameSite=Lax; Secure'')]\<rparr>
     = Inr (True,
      \<lparr>cookies = Some [(js ''t_consent'', js ''a%3D1%7Ce%3D1%7Cm%3D0%7Cts%3D1700000000000'')],
       clock = 1700000000000,
       trace = [CookieRead (js ''t_consent''),
         CookieWrite (js ''t_consent=a%3D1%7Ce%3D1%7Cm%3D0%7Cts%3D1700000000000; Expires=Wed, 13 Nov 2024 22:13:20 GMT; Path=/; SameSite=Lax; Secure''),
         CookieRead (js ''t_consent'')]\<rparr>)"
proof -
  define jar0 where "jar0 = [(js ''t_consent'', js ''a%3D0%7Ce%3D1%7Cm%3D0%7Cts%3D1690000000000'')]"
  define env0 where "env0 = \<lparr>cookies = Some jar0, clock = 1700000000000, trace = []\<rparr>"
  define p where "p = \<lparr>p_analytics = Some True, p_experiments = None, p_marketing = None, p_ts = None\<rparr>"
  have 1: "cookies env0 = Some jar0" by (simp add: env0_def)
  have 2: "getConsent env0 = Inr (\<lparr>analytics = False, experiments = True, marketing = False,
      ts = Fin 1690000000000\<rparr>, env0\<lparr>trace := [CookieRead CONSENT_COOKIE]\<rparr>)"
    by (simp add: env0_def jar0_def eval_simps)
  have wf: "wf_jar jar0" by (simp add: jar0_def eval_simps)
  from setConsent_merges [OF 1 2, of p None] obtain nxt enc line env2 where
    n: "nxt = merge_consent \<lparr>analytics = False, experiments = True, marketing = False,
      ts = Fin 1690000000000\<rparr> p (clock env0)"
    and e: "encodeURIComponent (encodeConsent (clock env0) nxt) = Inr enc"
    and l: "line = js ''t_consent='' @ enc @ js ''; Expires=''
          @ toUTCString (Date_setTime (clock env0 + (case None of None \<Rightarrow> 365 | Some d \<Rightarrow> d) * 86400000))
          @ js ''; Path=/; SameSite=Lax; Secure''"
    and e2: "env2 = env0\<lparr>cookies := Some (store_cookie line
                 (expires_instant (Some (Date_setTime (clock env0
                     + (case None of None \<Rightarrow> 365 | Some d \<Rightarrow> d) * 86400000))))
                 (clock env0) jar0),
              trace := trace env0 @ [CookieRead CONSENT_COOKIE, CookieWrite line]\<rparr>"
    and r: "setConsent p None env0 = Inr (nxt, env2)"
    and h: "wf_jar jar0 \<and> 0 < (case None of None \<Rightarrow> 365 | Some d \<Rightarrow> (d::int)) \<longrightarrow>
          hasConsent (js ''analytics'') env2
            = Inr (analytics nxt, env2\<lparr>trace := trace env2 @ [CookieRead CONSENT_COOKIE]\<rparr>)
        \<and> hasConsent (js ''experiments'') env2
            = Inr (experiments nxt, env2\<lparr>trace := trace env2 @ [CookieRead CONSENT_COOKIE]\<rparr>)
        \<and> hasConsent (js ''marketing'') env2
            = Inr (marketing nxt, env2\<lparr>trace := trace env2 @ [CookieRead CONSENT_COOKIE]\<rparr>)"
    by blast
  have nv: "nxt = \<lparr>analytics = True, experiments = True, marketing = False, ts = 1700000000000\<rparr>"
    using n by (simp add: p_def env0_def merge_consent_def)
  have "encodeURIComponent (encodeConsent 1700000000000
      \<lparr>analytics = True, experiments = True, marketing = False, ts = 1700000000000\<rparr>)
      = Inr (js ''a%3D1%7Ce%3D1%7Cm%3D0%7Cts%3D1700000000000'')"
    by (simp add: eval_simps)
  with e nv have ev: "enc = js ''a%3D1%7Ce%3D1%7Cm%3D0%7Cts%3D1700000000000''"
    by (simp add: env0_def)
  have "toUTCString (Date_setTime (1700000000000 + 365 * 86400000)) = js ''Wed, 13 Nov 2024 22:13:20 GMT''"
    by (simp add: eval_simps)
  with l ev have lv: "line = js ''t_consent=a%3D1%7Ce%3D1%7Cm%3D0%7Cts%3D1700000000000; Expires=Wed, 13 Nov 2024 22:13:20 GMT; Path=/; SameSite=Lax; Secure''"
    by (simp add: env0_def js_def)
  have "store_cookie (js ''t_consent=a%3D1%7Ce%3D1%7Cm%3D0%7Cts%3D1700000000000; Expires=Wed, 13 Nov 2024 22:13:20 GMT; Path=/; SameSite=Lax; Secure'')
      (expires_instant (Some (Date_setTime (1700000000000 + 365 * 86400000)))) 1700000000000 jar0
      = [(js ''t_consent'', js ''a%3D1%7Ce%3D1%7Cm%3D0%7Cts%3D1700000000000'')]"
    by (simp add: jar0_def eval_simps)
  with e2 lv have e2v: "env2 = \<lparr>cookies = Some [(js ''t_consent'', js ''a%3D1%7Ce%3D1%7Cm%3D0%7Cts%3D1700000000000'')],
       clock = 1700000000000,
       trace = [CookieRead (js ''t_consent''),
         CookieWrite (js ''t_consent=a%3D1%7Ce%3D1%7Cm%3D0%7Cts%3D1700000000000; Expires=Wed, 13 Nov 2024 22:13:20 GMT; Path=/; SameSite=Lax; Secure'')]\<rparr>"
    by (simp add: env0_def CONSENT_COOKIE_def)
  have "hasConsent (js ''analytics'') env2
      = Inr (analytics nxt, env2\<lparr>trace := trace env2 @ [CookieRead CONSENT_COOKIE]\<rparr>)"
    using h wf by simp
  then show ?thesis
    using r unfolding nv e2v by (simp add: p_def env0_def jar0_def CONSENT_COOKIE_def)
qed

text \<open>
  C3 as stated fails on a jar whose consent cookie is not valid percent-encoding:
  \<open>getCookie\<close> throws \<open>URIError\<close>, and \<open>setConsent\<close> neither returns nor writes.
\<close>

theorem setConsent_unreadable_counterexample:
  "setConsent \<lparr>p_analytics = Some True, p_experiments = None, p_marketing = None, p_ts = None\<rparr> None
     \<lparr>cookies = Some [(js ''t_consent'', js ''%'')], clock = 1700000000000, trace = []\<rparr>
   = Inl URIError"
  by (simp add: eval_simps)

text \<open>
  C5, as the code has it. When the state is Set and the clock reads a positive time, as
  every clock after 1970 does, \<open>setConsent\<close> of either implementation, for every
  \<open>partial\<close> (a \<open>ts\<close> field in it is overwritten by the clock) returns a record with a
  positive timestamp and writes a consent cookie whose value decodes to a record with a
  positive timestamp. With a positive \<open>ttlDays\<close> (the second implementation always uses
  365) the state read back from the jar is Set again, whatever else the jar holds.
\<close>

theorem setConsent_keeps_set:
  assumes "cookies env = Some jar" "consent_set env" "0 < clock env"
  shows "(\<exists>nxt env2 line v s.
        setConsent partial ttl env = Inr (nxt, env2) \<and> 0 < ts nxt
      \<and> trace env2 = trace env @ [CookieRead CONSENT_COOKIE, CookieWrite line]
      \<and> cookie_pair line = (CONSENT_COOKIE, v) \<and> decodeURIComponent v = Inr s
      \<and> positive (ts (decodeConsent (JStr s)))
      \<and> (0 < (case ttl of None \<Rightarrow> 365 | Some d \<Rightarrow> d) \<longrightarrow> consent_set env2))
    \<and> (\<exists>nxt env2 line v s.
        tc_setConsent partial env = Inr (nxt, env2) \<and> 0 < ts nxt
      \<and> trace env2 = trace env @ [CookieRead CONSENT_COOKIE, CookieWrite line]
      \<and> cookie_pair line = (CONSENT_COOKIE, v) \<and> decodeURIComponent v = Inr s
      \<and> positive (ts (decodeConsent (JStr s)))
      \<and> consent_set env2)"
proof -
  obtain current env1 where g: "getConsent env = Inr (current, env1)"
    using assms(2) by (auto simp: consent_set_def split: sum.splits)
  have 1: "\<exists>nxt env2 line v s.
        setConsent partial t env = Inr (nxt, env2) \<and> 0 < ts nxt
      \<and> trace env2 = trace env @ [CookieRead CONSENT_COOKIE, CookieWrite line]
      \<and> cookie_pair line = (CONSENT_COOKIE, v) \<and> decodeURIComponent v = Inr s
      \<and> positive (ts (decodeConsent (JStr s)))
      \<and> (0 < (case t of None \<Rightarrow> 365 | Some d \<Rightarrow> d) \<longrightarrow> consent_set env2)" for t
  proof -
    obtain nxt env2 line v s where r: "setConsent partial t env = Inr (nxt, env2)" "0 < ts nxt"
      "trace env2 = trace env @ [CookieRead CONSENT_COOKIE, CookieWrite line]"
      "cookie_pair line = (CONSENT_COOKIE, v)" "decodeURIComponent v = Inr s"
      "positive (ts (decodeConsent (JStr s)))"
      using setConsent_set [OF assms(1) g assms(3), of partial t] by blast
    have "consent_set env2" if "0 < (case t of None \<Rightarrow> 365 | Some d \<Rightarrow> d)"
      using setConsent_stays_set [OF assms that r(1)] .
    with r show ?thesis by blast
  qed
  show ?thesis
    using 1 [of ttl] 1 [of None] by (simp add: tc_setConsent_eq)
qed

theorem setConsent_keeps_set_witness:
  "(\<exists>nxt env2.
      setConsent \<lparr>p_analytics = None, p_experiments = Some False, p_marketing = None, p_ts = Some 0\<rparr> None
        \<lparr>cookies = Some [(js ''t_consent'', js ''a%3D1%7Ce%3D1%7Cm%3D0%7Cts%3D1690000000000'')],
         clock = 1700000000000, trace = []\<rparr> = Inr (nxt, env2)
      \<and> 0 < ts nxt \<and> consent_set env2)
   \<and> (\<exists>nxt env2.
      tc_setConsent \<lparr>p_analytics = None, p_experiments = Some False, p_marketing = None, p_ts = Some 0\<rparr>
        \<lparr>cookies = Some [(js ''t_consent'', js ''a%3D1%7Ce%3D1%7Cm%3D0%7Cts%3D1690000000000'')],
         clock = 1700000000000, trace = []\<rparr> = Inr (nxt, env2)
      \<and> 0 < ts nxt \<and> consent_set env2)"
proof -
  define env0 where "env0 =
    \<lparr>cookies = Some [(js ''t_consent'', js ''a%3D1%7Ce%3D1%7Cm%3D0%7Cts%3D1690000000000'')],
     clock = 1700000000000, trace = []\<rparr>"
  have 1: "cookies env0 = Some [(js ''t_consent'', js ''a%3D1%7Ce%3D1%7Cm%3D0%7Cts%3D1690000000000'')]"
    by (simp add: env0_def)
  have 2: "consent_set env0" by (simp add: env0_def eval_simps)
  have 3: "0 < clock env0" by (simp add: env0_def)
  show ?thesis
    using setConsent_keeps_set [OF 1 2 3,
        of "\<lparr>p_analytics = None, p_experiments = Some False, p_marketing = None, p_ts = Some 0\<rparr>" None]
    unfolding env0_def by fastforce
qed

text \<open>
  C5 as stated fails for \<open>ttlDays = 0\<close>: the cookie written is already expired, the
  browser drops the stored consent cookie, and the state is Unset again. It fails as well
  for a clock at the epoch, where the timestamp written is 0.
\<close>

theorem setConsent_expired_counterexample:
  "consent_set
     \<lparr>cookies = Some [(js ''t_consent'', js ''a%3D1%7Ce%3D1%7Cm%3D0%7Cts%3D1690000000000'')],
      clock = 1700000000000, trace = []\<rparr>
   \<and> setConsent \<lparr>p_analytics = Some True, p_experiments = Some True, p_marketing = Some False, p_ts = None\<rparr>
       (Some 0)
       \<lparr>cookies = Some [(js ''t_consent'', js ''a%3D1%7Ce%3D1%7Cm%3D0%7Cts%3D1690000000000'')],
        clock = 1700000000000, trace = []\<rparr>
     = Inr (\<lparr>analytics = True, experiments = True, marketing = False, ts = 1700000000000\<rparr>,
        \<lparr>cookies = Some [], clock = 1700000000000,
         trace = [CookieRead (js ''t_consent''),
           CookieWrite (js ''t_consent=a%3D1%7Ce%3D1%7Cm%3D0%7Cts%3D1700000000000; Expires=Tue, 14 Nov 2023 22:13:20 GMT; Path=/; SameSite=Lax; Secure'')]\<rparr>)
   \<and> \<not> consent_set
       \<lparr>cookies = Some [], clock = 1700000000000,
        trace = [CookieRead (js ''t_consent''),
          CookieWrite (js ''t_consent=a%3D1%7Ce%3D1%7Cm%3D0%7Cts%3D1700000000000; Expires=Tue, 14 Nov 2023 22:13:20 GMT; Path=/; SameSite=Lax; Secure'')]\<rparr>
   \<and> consent_set
     \<lparr>cookies = Some [(js ''t_consent'', js ''a%3D1%7Ce%3D1%7Cm%3D0%7Cts%3D1690000000000'')],
      clock = 0, trace = []\<rparr>
   \<and> setConsent \<lparr>p_analytics = Some True, p_experiments = Some True, p_marketing = Some False, p_ts = None\<rparr>
       None
       \<lparr>cookies = Some [(js ''t_consent'', js ''a%3D1%7Ce%3D1%7Cm%3D0%7Cts%3D1690000000000'')],
        clock = 0, trace = []\<rparr>
     = Inr (\<lparr>analytics = True, experiments = True, marketing = False, ts = 0\<rparr>,
        \<lparr>cookies = Some [(js ''t_consent'', js ''a%3D1%7Ce%3D1%7Cm%3D0%7Cts%3D0'')], clock = 0,
         trace = [CookieRead (js ''t_consent''),
           CookieWrite (js ''t_consent=a%3D1%7Ce%3D1%7Cm%3D0%7Cts%3D0; Expires=Fri, 01 Jan 1971 00:00:00 GMT; Path=/; SameSite=Lax; Secure'')]\<rparr>)
   \<and> \<not> consent_set
       \<lparr>cookies = Some [(js ''t_consent'', js ''a%3D1%7Ce%3D1%7Cm%3D0%7Cts%3D0'')], clock = 0,
        trace = [CookieRead (js ''t_consent''),
          CookieWrite (js ''t_consent=a%3D1%7Ce%3D1%7Cm%3D0%7Cts%3D0; Expires=Fri, 01 Jan 1971 00:00:00 GMT; Path=/; SameSite=Lax; Secure'')]\<rparr>"
proof -
  have 1: "consent_set
     \<lparr>cookies = Some [(js ''t_consent'', js ''a%3D1%7Ce%3D1%7Cm%3D0%7Cts%3D1690000000000'')],
      clock = 1700000000000, trace = []\<rparr>"
    by (simp add: eval_simps)
  have 2: "setConsent \<lparr>p_analytics = Some True, p_experiments = Some True, p_marketing = Some False, p_ts = None\<rparr>
       (Some 0)
       \<lparr>cookies = Some [(js ''t_consent'', js ''a%3D1%7Ce%3D1%7Cm%3D0%7Cts%3D1690000000000'')],
        clock = 1700000000000, trace = []\<rparr>
     = Inr (\<lparr>analytics = True, experiments = True, marketing = False, ts = 1700000000000\<rparr>,
        \<lparr>cookies = Some [], clock = 1700000000000,
         trace = [CookieRead (js ''t_consent''),
           CookieWrite (js ''t_consent=a%3D1%7Ce%3D1%7Cm%3D0%7Cts%3D1700000000000; Expires=Tue, 14 Nov 2023 22:13:20 GMT; Path=/; SameSite=Lax; Secure'')]\<rparr>)"
    by (simp add: eval_simps)
  have 3: "\<not> consent_set
       \<lparr>cookies = Some [], clock = 1700000000000,
        trace = [CookieRead (js ''t_consent''),
          CookieWrite (js ''t_consent=a%3D1%7Ce%3D1%7Cm%3D0%7Cts%3D1700000000000; Expires=Tue, 14 Nov 2023 22:13:20 GMT; Path=/; SameSite=Lax; Secure'')]\<rparr>"
    by (simp add: eval_simps)
  have 4: "consent_set
     \<lparr>cookies = Some [(js ''t_consent'', js ''a%3D1%7Ce%3D1%7Cm%3D0%7Cts%3D1690000000000'')],
      clock = 0, trace = []\<rparr>"
    by (simp add: eval_simps)
  have 5: "setConsent \<lparr>p_analytics = Some True, p_experiments = Some True, p_marketing = Some False, p_ts = None\<rparr>
       None
       \<lparr>cookies = Some [(js ''t_consent'', js ''a%3D1%7Ce%3D1%7Cm%3D0%7Cts%3D1690000000000'')],
        clock = 0, trace = []\<rparr>
     = Inr (\<lparr>analytics = True, experiments = True, marketing = False, ts = 0\<rparr>,
        \<lparr>cookies = Some [(js ''t_consent'', js ''a%3D1%7Ce%3D1%7Cm%3D0%7Cts%3D0'')], clock = 0,
         trace = [CookieRead (js ''t_consent''),
           CookieWrite (js ''t_consent=a%3D1%7Ce%3D1%7Cm%3D0%7Cts%3D0; Expires=Fri, 01 Jan 1971 00:00:00 GMT; Path=/; SameSite=Lax; Secure'')]\<rparr>)"
    by (simp add: eval_simps)
  have 6: "\<not> consent_set
       \<lparr>cookies = Some [(js ''t_consent'', js ''a%3D1%7Ce%3D1%7Cm%3D0%7Cts%3D0'')], clock = 0,
        trace = [CookieRead (js ''t_consent''),
          CookieWrite (js ''t_consent=a%3D1%7Ce%3D1%7Cm%3D0%7Cts%3D0; Expires=Fri, 01 Jan 1971 00:00:00 GMT; Path=/; SameSite=Lax; Secure'')]\<rparr>"
    by (simp add: eval_simps)
  show ?thesis using 1 2 3 4 5 6 by blast
qed

text \<open>
  C6, as the code has it. \<open>setCookie\<close> has no test for a missing \<open>document\<close>: it encodes
  the name and the value, builds the text, and the assignment to \<open>document.cookie\<close> throws
  \<open>ReferenceError\<close> (a \<open>URIError\<close> of the encoding comes first). It never returns normally
  there, so nothing is a silent no-op.
\<close>

theorem setCookie_without_document:
  assumes "cookies env = None"
  shows "setCookie name value options env =
     (case encodeURIComponent name of
        Inl e \<Rightarrow> Inl e
      | Inr n \<Rightarrow>
          (case encodeURIComponent (String_of value) of
             Inl e \<Rightarrow> Inl e
           | Inr v \<Rightarrow> Inl ReferenceError))"
  using assms
  by (simp add: setCookie_def document_cookie_assign_def Let_def split: sum.splits)

theorem setCookie_without_document_witness:
  "setCookie (js ''t_pref_theme'') (JStr (js ''dark'')) no_options
      \<lparr>cookies = None, clock = 1700000000000, trace = []\<rparr> = Inl ReferenceError
   \<and> setCookie [0xD800] (JStr (js ''dark'')) no_options
      \<lparr>cookies = None, clock = 1700000000000, trace = []\<rparr> = Inl URIError"
  using setCookie_without_document
      [of "\<lparr>cookies = None, clock = 1700000000000, trace = []\<rparr>" "js ''t_pref_theme''"
        "JStr (js ''dark'')" no_options]
    setCookie_without_document
      [of "\<lparr>cookies = None, clock = 1700000000000, trace = []\<rparr>" "[0xD800]"
        "JStr (js ''dark'')" no_options]
  by (simp add: js_def ch_def uri_unreserved_def is_alnum_def is_low_surrogate_def
      is_high_surrogate_def emit_def)

text \<open>C6 as stated fails: without a document, an ordinary call of \<open>set\<close> throws.\<close>

theorem setCookie_without_document_counterexample:
  "setCookie (js ''a'') (JStr (js ''b'')) no_options
      \<lparr>cookies = None, clock = 1700000000000, trace = []\<rparr> = Inl ReferenceError"
  by (simp add: eval_simps)

text \<open>
  C7, as the code has it. With experiments consent and a variant cookie read as \<open>v\<close>:
  when \<open>v\<close> is a non-empty string and a member of the variants, \<open>assignAB\<close> returns it and
  writes nothing (the jar is read twice, for the consent and for the variant). Otherwise
  (no variant cookie, an empty value, or a value outside the variants), and when the
  variants are not empty and the random draw lies in \<open>[0, 1)\<close>, it picks a member of the
  variants, assigns the cookie \<open>t_ab\<close> with that value and the expiry, and returns it.
\<close>

theorem assignAB_stable:
  assumes "cookies env = Some jar" "getConsent env = Inr (c, env1)" "experiments c"
    "getCookie AB_COOKIE env1 = Inr (v, env2)"
  shows "(\<forall>s. v = JStr s \<and> s \<noteq> [] \<and> s \<in> set (ab_variants options) \<longrightarrow>
            assignAB options r env =
              Inr (JStr s, env\<lparr>trace := trace env @ [CookieRead CONSENT_COOKIE, CookieRead AB_COOKIE]\<rparr>))
    \<and> (\<not> (\<exists>s. v = JStr s \<and> s \<noteq> [] \<and> s \<in> set (ab_variants options))
         \<and> ab_variants options \<noteq> [] \<and> 0 \<le> r \<and> r < 1 \<longrightarrow>
          (\<exists>x \<in> set (ab_variants options). \<forall>ex. encodeURIComponent x = Inr ex \<longrightarrow>
             assignAB options r env =
               Inr (JStr x,
                 env\<lparr>cookies := Some (store_cookie
                        (js ''t_ab='' @ ex @ js ''; Expires=''
                           @ toUTCString (Date_setTime (clock env + ab_ttlDays options * 86400000))
                           @ js ''; Path=/; SameSite=Lax; Secure'')
                        (expires_instant (Some (Date_setTime (clock env + ab_ttlDays options * 86400000))))
                        (clock env) jar),
                     trace := trace env @ [CookieRead CONSENT_COOKIE, CookieRead AB_COOKIE,
                        CookieWrite
                          (js ''t_ab='' @ ex @ js ''; Expires=''
                             @ toUTCString (Date_setTime (clock env + ab_ttlDays options * 86400000))
                             @ js ''; Path=/; SameSite=Lax; Secure'')]\<rparr>)))"
proof (intro conjI allI impI)
  have e1: "env1 = env\<lparr>trace := trace env @ [CookieRead CONSENT_COOKIE]\<rparr>"
    using getConsent_env [OF assms(2)] .
  have e2: "env2 = env\<lparr>trace := trace env @ [CookieRead CONSENT_COOKIE, CookieRead AB_COOKIE]\<rparr>"
    using getCookie_env [OF assms(4)] e1 by simp
  {
    fix s
    assume "v = JStr s \<and> s \<noteq> [] \<and> s \<in> set (ab_variants options)"
    then have "valid_variant (ab_variants options) v" by (simp add: valid_variant_def)
    then show "assignAB options r env =
        Inr (JStr s, env\<lparr>trace := trace env @ [CookieRead CONSENT_COOKIE, CookieRead AB_COOKIE]\<rparr>)"
      using assms e2 \<open>v = JStr s \<and> s \<noteq> [] \<and> s \<in> set (ab_variants options)\<close>
      by (simp add: assignAB_def hasConsent_experiments)
  }
  {
    assume a: "\<not> (\<exists>s. v = JStr s \<and> s \<noteq> [] \<and> s \<in> set (ab_variants options))
         \<and> ab_variants options \<noteq> [] \<and> 0 \<le> r \<and> r < 1"
    then have nv: "\<not> valid_variant (ab_variants options) v"
      by (auto simp: valid_variant_def split: jsval.splits)
    define i where "i = \<lfloor>r * real (length (ab_variants options))\<rfloor>"
    have i: "0 \<le> i \<and> nat i < length (ab_variants options)"
      using a floor_index [of r "length (ab_variants options)"] by (simp add: i_def)
    define x where "x = ab_variants options ! nat i"
    have x: "x \<in> set (ab_variants options)" using i by (simp add: x_def)
    have el: "element_at (ab_variants options) i = JStr x" using i by (simp add: element_at_def x_def)
    have c2: "cookies env2 = Some jar" "clock env2 = clock env" using e2 assms(1) by simp_all
    have "\<forall>ex. encodeURIComponent x = Inr ex \<longrightarrow>
             assignAB options r env =
               Inr (JStr x,
                 env\<lparr>cookies := Some (store_cookie
                        (js ''t_ab='' @ ex @ js ''; Expires=''
                           @ toUTCString (Date_setTime (clock env + ab_ttlDays options * 86400000))
                           @ js ''; Path=/; SameSite=Lax; Secure'')
                        (expires_instant (Some (Date_setTime (clock env + ab_ttlDays options * 86400000))))
                        (clock env) jar),
                     trace := trace env @ [CookieRead CONSENT_COOKIE, CookieRead AB_COOKIE,
                        CookieWrite
                          (js ''t_ab='' @ ex @ js ''; Expires=''
                             @ toUTCString (Date_setTime (clock env + ab_ttlDays options * 86400000))
                             @ js ''; Path=/; SameSite=Lax; Secure'')]\<rparr>)"
    proof (intro allI impI)
      fix ex
      assume ex: "encodeURIComponent x = Inr ex"
      have sc: "setCookie AB_COOKIE (JStr x) (consent_options (ab_ttlDays options)) env2 =
        Inr (env2\<lparr>cookies := Some (store_cookie
            (AB_COOKIE @ js ''='' @ ex @ js ''; Expires='' @ toUTCString (Date_setTime (clock env2 + ab_ttlDays options * 86400000))
               @ js ''; Path=/; SameSite=Lax; Secure'')
            (expires_instant (Some (Date_setTime (clock env2 + ab_ttlDays options * 86400000)))) (clock env2) jar),
          trace := trace env2 @ [CookieWrite
            (AB_COOKIE @ js ''='' @ ex @ js ''; Expires='' @ toUTCString (Date_setTime (clock env2 + ab_ttlDays options * 86400000))
               @ js ''; Path=/; SameSite=Lax; Secure'')]\<rparr>)"
        using setCookie_consent_options [OF c2(1) encode_AB_COOKIE, of "JStr x" ex] ex by simp
      have "assignAB options r env = (case setCookie AB_COOKIE (JStr x) (consent_options (ab_ttlDays options)) env2 of
           Inl e \<Rightarrow> Inl e | Inr env3 \<Rightarrow> Inr (JStr x, env3))"
        using assms nv el by (simp add: assignAB_def hasConsent_experiments i_def Let_def)
      then show "assignAB options r env =
               Inr (JStr x,
                 env\<lparr>cookies := Some (store_cookie
                        (js ''t_ab='' @ ex @ js ''; Expires=''
                           @ toUTCString (Date_setTime (clock env + ab_ttlDays options * 86400000))
                           @ js ''; Path=/; SameSite=Lax; Secure'')
                        (expires_instant (Some (Date_setTime (clock env + ab_ttlDays options * 86400000))))
                        (clock env) jar),
                     trace := trace env @ [CookieRead CONSENT_COOKIE, CookieRead AB_COOKIE,
                        CookieWrite
                          (js ''t_ab='' @ ex @ js ''; Expires=''
                             @ toUTCString (Date_setTime (clock env + ab_ttlDays options * 86400000))
                             @ js ''; Path=/; SameSite=Lax; Secure'')]\<rparr>)"
        unfolding sc using e2 c2 by (simp add: AB_COOKIE_def js_def)
    qed
    with x show "\<exists>x \<in> set (ab_variants options). \<forall>ex. encodeURIComponent x = Inr ex \<longrightarrow>
             assignAB options r env =
               Inr (JStr x,
                 env\<lparr>cookies := Some (store_cookie
                        (js ''t_ab='' @ ex @ js ''; Expires=''
                           @ toUTCString (Date_setTime (clock env + ab_ttlDays options * 86400000))
                           @ js ''; Path=/; SameSite=Lax; Secure'')
                        (expires_instant (Some (Date_setTime (clock env + ab_ttlDays options * 86400000))))
                        (clock env) jar),
                     trace := trace env @ [CookieRead CONSENT_COOKIE, CookieRead AB_COOKIE,
                        CookieWrite
                          (js ''t_ab='' @ ex @ js ''; Expires=''
                             @ toUTCString (Date_setTime (clock env + ab_ttlDays options * 86400000))
                             @ js ''; Path=/; SameSite=Lax; Secure'')]\<rparr>)"
      by blast
  }
qed

theorem assignAB_stable_witness:
  "assignAB \<lparr>variants = Some [js ''control'', js ''new''], ttlDays = Some 7\<rparr> (3 / 4)
     \<lparr>cookies = Some [(js ''t_consent'', js ''a%3D1%7Ce%3D1%7Cm%3D0%7Cts%3D1700000000000''),
        (js ''t_ab'', js ''control'')],
      clock = 1700000000000, trace = []\<rparr>
   = Inr (JStr (js ''control''),
      \<lparr>cookies = Some [(js ''t_consent'', js ''a%3D1%7Ce%3D1%7Cm%3D0%7Cts%3D1700000000000''),
         (js ''t_ab'', js ''control'')],
       clock = 1700000000000,
       trace = [CookieRead (js ''t_consent''), CookieRead (js ''t_ab'')]\<rparr>)
   \<and> (\<exists>x \<in> set [js ''control'', js ''new'']. \<exists>env3.
        assignAB \<lparr>variants = Some [js ''control'', js ''new''], ttlDays = Some 7\<rparr> (3 / 4)
          \<lparr>cookies = Some [(js ''t_consent'', js ''a%3D1%7Ce%3D1%7Cm%3D0%7Cts%3D1700000000000''),
             (js ''t_ab'', js ''old'')],
           clock = 1700000000000, trace = []\<rparr>
        = Inr (JStr x, env3)
        \<and> trace env3 = [CookieRead (js ''t_consent''), CookieRead (js ''t_ab''),
            CookieWrite (js ''t_ab='' @ x
              @ js ''; Expires=Tue, 21 Nov 2023 22:13:20 GMT; Path=/; SameSite=Lax; Secure'')])"
proof -
  define c0 where "c0 = (js ''t_consent'', js ''a%3D1%7Ce%3D1%7Cm%3D0%7Cts%3D1700000000000'')"
  define envA where "envA = \<lparr>cookies = Some [c0, (js ''t_ab'', js ''control'')],
      clock = 1700000000000, trace = []\<rparr>"
  define envB where "envB = \<lparr>cookies = Some [c0, (js ''t_ab'', js ''old'')],
      clock = 1700000000000, trace = []\<rparr>"
  define opts where "opts = \<lparr>variants = Some [js ''control'', js ''new''], ttlDays = Some 7\<rparr>"
  define rec where "rec = \<lparr>analytics = True, experiments = True, marketing = False,
      ts = Fin 1700000000000\<rparr>"
  have a1: "cookies envA = Some [c0, (js ''t_ab'', js ''control'')]" by (simp add: envA_def)
  have b1: "cookies envB = Some [c0, (js ''t_ab'', js ''old'')]" by (simp add: envB_def)
  have a2: "getConsent envA = Inr (rec, envA\<lparr>trace := [CookieRead CONSENT_COOKIE]\<rparr>)"
    by (simp add: envA_def c0_def rec_def eval_simps)
  have b2: "getConsent envB = Inr (rec, envB\<lparr>trace := [CookieRead CONSENT_COOKIE]\<rparr>)"
    by (simp add: envB_def c0_def rec_def eval_simps)
  have a3: "getCookie AB_COOKIE (envA\<lparr>trace := [CookieRead CONSENT_COOKIE]\<rparr>)
      = Inr (JStr (js ''control''), envA\<lparr>trace := [CookieRead CONSENT_COOKIE, CookieRead AB_COOKIE]\<rparr>)"
    by (simp add: envA_def c0_def eval_simps)
  have b3: "getCookie AB_COOKIE (envB\<lparr>trace := [CookieRead CONSENT_COOKIE]\<rparr>)
      = Inr (JStr (js ''old''), envB\<lparr>trace := [CookieRead CONSENT_COOKIE, CookieRead AB_COOKIE]\<rparr>)"
    by (simp add: envB_def c0_def eval_simps)
  have ex: "experiments rec" by (simp add: rec_def)
  have vs: "ab_variants opts = [js ''control'', js ''new'']" by (simp add: opts_def ab_variants_def)
  have ttl: "ab_ttlDays opts = 7" by (simp add: opts_def ab_ttlDays_def)
  have "assignAB opts (3 / 4) envA =
      Inr (JStr (js ''control''), envA\<lparr>trace := trace envA @ [CookieRead CONSENT_COOKIE, CookieRead AB_COOKIE]\<rparr>)"
    using conjunct1 [OF assignAB_stable [OF a1 a2 ex a3, of opts "3 / 4"]]
    by (simp add: vs js_def)
  then have A: "assignAB opts (3 / 4) envA =
      Inr (JStr (js ''control''), \<lparr>cookies = Some [c0, (js ''t_ab'', js ''control'')],
        clock = 1700000000000, trace = [CookieRead (js ''t_consent''), CookieRead (js ''t_ab'')]\<rparr>)"
    by (simp add: envA_def CONSENT_COOKIE_def AB_COOKIE_def)
  have old: "js ''old'' \<notin> set [js ''control'', js ''new'']" by (simp add: js_def ch_def)
  have "\<exists>x \<in> set (ab_variants opts). \<forall>ex. encodeURIComponent x = Inr ex \<longrightarrow>
             assignAB opts (3 / 4) envB =
               Inr (JStr x,
                 envB\<lparr>cookies := Some (store_cookie
                        (js ''t_ab='' @ ex @ js ''; Expires=''
                           @ toUTCString (Date_setTime (clock envB + ab_ttlDays opts * 86400000))
                           @ js ''; Path=/; SameSite=Lax; Secure'')
                        (expires_instant (Some (Date_setTime (clock envB + ab_ttlDays opts * 86400000))))
                        (clock envB) [c0, (js ''t_ab'', js ''old'')]),
                     trace := trace envB @ [CookieRead CONSENT_COOKIE, CookieRead AB_COOKIE,
                        CookieWrite
                          (js ''t_ab='' @ ex @ js ''; Expires=''
                             @ toUTCString (Date_setTime (clock envB + ab_ttlDays opts * 86400000))
                             @ js ''; Path=/; SameSite=Lax; Secure'')]\<rparr>)"
    using conjunct2 [OF assignAB_stable [OF b1 b2 ex b3, of opts "3 / 4"]] old
    by (simp add: vs)
  then obtain x where x: "x \<in> set [js ''control'', js ''new'']"
    and imp: "\<forall>ex. encodeURIComponent x = Inr ex \<longrightarrow>
             assignAB opts (3 / 4) envB =
               Inr (JStr x,
                 envB\<lparr>cookies := Some (store_cookie
                        (js ''t_ab='' @ ex @ js ''; Expires=''
                           @ toUTCString (Date_setTime (clock envB + ab_ttlDays opts * 86400000))
                           @ js ''; Path=/; SameSite=Lax; Secure'')
                        (expires_instant (Some (Date_setTime (clock envB + ab_ttlDays opts * 86400000))))
                        (clock envB) [c0, (js ''t_ab'', js ''old'')]),
                     trace := trace envB @ [CookieRead CONSENT_COOKIE, CookieRead AB_COOKIE,
                        CookieWrite
                          (js ''t_ab='' @ ex @ js ''; Expires=''
                             @ toUTCString (Date_setTime (clock envB + ab_ttlDays opts * 86400000))
                             @ js ''; Path=/; SameSite=Lax; Secure'')]\<rparr>)"
    unfolding vs by blast
  have enc: "encodeURIComponent x = Inr x"
    using x by (auto simp: eval_simps)
  have d: "toUTCString (Date_setTime (1700000000000 + 7 * 86400000)) = js ''Tue, 21 Nov 2023 22:13:20 GMT''"
    by (simp add: eval_simps)
  have B: "\<exists>env3. assignAB opts (3 / 4) envB = Inr (JStr x, env3)
        \<and> trace env3 = [CookieRead (js ''t_consent''), CookieRead (js ''t_ab''),
            CookieWrite (js ''t_ab='' @ x
              @ js ''; Expires=Tue, 21 Nov 2023 22:13:20 GMT; Path=/; SameSite=Lax; Secure'')]"
    using imp enc d by (simp add: envB_def ttl CONSENT_COOKIE_def AB_COOKIE_def js_def)
  show ?thesis
    using A B x unfolding opts_def envA_def envB_def c0_def by blast
qed

text \<open>
  C7 as stated fails for a stored value that is the empty string: it is a member of the
  variants \<open>['', 'B']\<close>, yet \<open>v && ...\<close> is false for it, and with a draw of 0.5 the
  function writes and returns \<open>B\<close>. It fails for an empty variants list as well: what is
  selected and persisted is \<open>undefined\<close>, which is no member of the list.
\<close>

theorem assignAB_empty_stored_counterexample:
  "getCookie AB_COOKIE
     \<lparr>cookies = Some [(js ''t_consent'', js ''a%3D1%7Ce%3D1%7Cm%3D0%7Cts%3D1700000000000''), (js ''t_ab'', [])],
      clock = 1700000000000, trace = []\<rparr>
   = Inr (JStr [],
      \<lparr>cookies = Some [(js ''t_consent'', js ''a%3D1%7Ce%3D1%7Cm%3D0%7Cts%3D1700000000000''), (js ''t_ab'', [])],
       clock = 1700000000000, trace = [CookieRead (js ''t_ab'')]\<rparr>)
   \<and> [] \<in> set [[], js ''B'']
   \<and> assignAB \<lparr>variants = Some [[], js ''B''], ttlDays = None\<rparr> (1 / 2)
     \<lparr>cookies = Some [(js ''t_consent'', js ''a%3D1%7Ce%3D1%7Cm%3D0%7Cts%3D1700000000000''), (js ''t_ab'', [])],
      clock = 1700000000000, trace = []\<rparr>
   = Inr (JStr (js ''B''),
      \<lparr>cookies = Some [(js ''t_consent'', js ''a%3D1%7Ce%3D1%7Cm%3D0%7Cts%3D1700000000000''), (js ''t_ab'', js ''B'')],
       clock = 1700000000000,
       trace = [CookieRead (js ''t_consent''), CookieRead (js ''t_ab''),
         CookieWrite (js ''t_ab=B; Expires=Tue, 28 Nov 2023 22:13:20 GMT; Path=/; SameSite=Lax; Secure'')]\<rparr>)
   \<and> assignAB \<lparr>variants = Some [], ttlDays = None\<rparr> (1 / 2)
     \<lparr>cookies = Some [(js ''t_consent'', js ''a%3D1%7Ce%3D1%7Cm%3D0%7Cts%3D1700000000000''), (js ''t_ab'', js ''B'')],
      clock = 1700000000000, trace = []\<rparr>
   = Inr (JUndefined,
      \<lparr>cookies = Some [(js ''t_consent'', js ''a%3D1%7Ce%3D1%7Cm%3D0%7Cts%3D1700000000000''), (js ''t_ab'', js ''undefined'')],
       clock = 1700000000000,
       trace = [CookieRead (js ''t_consent''), CookieRead (js ''t_ab''),
         CookieWrite (js ''t_ab=undefined; Expires=Tue, 28 Nov 2023 22:13:20 GMT; Path=/; SameSite=Lax; Secure'')]\<rparr>)"
  by (simp add: eval_simps)

text \<open>
  C8, as the code has it. \<open>getCookie\<close> encodes the name (an unpaired surrogate in it throws
  \<open>URIError\<close>), reads \<open>document.cookie\<close>, and looks for the first \<open>;\<close>-separated part whose
  trimmed text starts with the encoded name and \<open>=\<close>. It returns \<open>null\<close> when there is
  none; otherwise it percent-decodes what follows the \<open>=\<close> and returns it, or throws
  \<open>URIError\<close> when that text is not valid percent-encoding. Every text is the text of some
  jar (of the one cookie without a name whose value it is).
\<close>

theorem getCookie_first_match:
  assumes "cookies env = Some jar"
  shows "getCookie name env =
     (case encodeURIComponent name of
        Inl e \<Rightarrow> Inl e
      | Inr n \<Rightarrow>
          (case find (\<lambda>part. startsWith (trim part) (n @ js ''=''))
                  (split_on (ch CHR '';'') (cookie_text jar)) of
             None \<Rightarrow> Inr (JNull, env\<lparr>trace := trace env @ [CookieRead name]\<rparr>)
           | Some part \<Rightarrow>
               (case decodeURIComponent (drop (length (n @ js ''='')) (trim part)) of
                  Inl e \<Rightarrow> Inl e
                | Inr s \<Rightarrow> Inr (JStr s, env\<lparr>trace := trace env @ [CookieRead name]\<rparr>))))
    \<and> (\<exists>jar'. cookie_text jar' = raw)"
proof
  show "getCookie name env =
     (case encodeURIComponent name of
        Inl e \<Rightarrow> Inl e
      | Inr n \<Rightarrow>
          (case find (\<lambda>part. startsWith (trim part) (n @ js ''=''))
                  (split_on (ch CHR '';'') (cookie_text jar)) of
             None \<Rightarrow> Inr (JNull, env\<lparr>trace := trace env @ [CookieRead name]\<rparr>)
           | Some part \<Rightarrow>
               (case decodeURIComponent (drop (length (n @ js ''='')) (trim part)) of
                  Inl e \<Rightarrow> Inl e
                | Inr s \<Rightarrow> Inr (JStr s, env\<lparr>trace := trace env @ [CookieRead name]\<rparr>))))"
    using assms
    by (simp add: getCookie_def find_cookie_find split: sum.splits option.splits)
  show "\<exists>jar'. cookie_text jar' = raw"
    using cookie_text_nameless [of raw] by blast
qed

theorem getCookie_first_match_witness:
  "getCookie (js ''theme'')
      \<lparr>cookies = Some [(js ''x'', js ''1''), (js ''theme'', js ''dark%20mode''), (js ''theme'', js ''light'')],
       clock = 0, trace = []\<rparr>
     = Inr (JStr (js ''dark mode''),
         \<lparr>cookies = Some [(js ''x'', js ''1''), (js ''theme'', js ''dark%20mode''), (js ''theme'', js ''light'')],
          clock = 0, trace = [CookieRead (js ''theme'')]\<rparr>)
   \<and> getCookie (js ''them'')
      \<lparr>cookies = Some [(js ''x'', js ''1''), (js ''theme'', js ''dark%20mode''), (js ''theme'', js ''light'')],
       clock = 0, trace = []\<rparr>
     = Inr (JNull,
         \<lparr>cookies = Some [(js ''x'', js ''1''), (js ''theme'', js ''dark%20mode''), (js ''theme'', js ''light'')],
          clock = 0, trace = [CookieRead (js ''them'')]\<rparr>)"
  using getCookie_first_match
      [of "\<lparr>cookies = Some [(js ''x'', js ''1''), (js ''theme'', js ''dark%20mode''), (js ''theme'', js ''light'')],
            clock = 0, trace = []\<rparr>"
        "[(js ''x'', js ''1''), (js ''theme'', js ''dark%20mode''), (js ''theme'', js ''light'')]"
        "js ''theme''"]
    getCookie_first_match
      [of "\<lparr>cookies = Some [(js ''x'', js ''1''), (js ''theme'', js ''dark%20mode''), (js ''theme'', js ''light'')],
            clock = 0, trace = []\<rparr>"
        "[(js ''x'', js ''1''), (js ''theme'', js ''dark%20mode''), (js ''theme'', js ''light'')]"
        "js ''them''"]
  by (simp add: eval_simps)

text \<open>
  C8 as stated fails on the jar text \<open>x=%\<close>: the first part matching \<open>x=\<close> has no
  percent-decoded value, and \<open>get\<close> throws instead of returning.
\<close>

theorem getCookie_malformed_counterexample:
  "cookie_text [(js ''x'', js ''%'')] = js ''x=%''
   \<and> getCookie (js ''x'') \<lparr>cookies = Some [(js ''x'', js ''%'')], clock = 0, trace = []\<rparr> = Inl URIError"
  by (simp add: getCookie_def cookie_text_def render_pair_def eval_simps trim_def is_space_def startsWith_def hexval_def)

text \<open>
  C9. On every environment, the \<open>getConsent\<close> of \<open>tangled-consent.js\<close> returns what the
  one of the other file returns (the record, the trace, or the exception), and its
  \<open>setConsent\<close> returns and writes what the other one does at its default \<open>ttlDays\<close>,
  left out or given as 365, under the same clock.
\<close>

theorem implementations_agree:
  "tc_getConsent env = getConsent env
   \<and> tc_setConsent partial env = setConsent partial None env
   \<and> tc_setConsent partial env = setConsent partial (Some 365) env"
  by (simp add: tc_getConsent_eq tc_setConsent_eq) (simp add: setConsent_def split: sum.splits)




end
